theory Spec2Isabelle
  imports Main "HOL-Library.AList"
begin

section \<open>Dates\<close>

text \<open>
  A JavaScript \<open>Date\<close> holds a time value: the milliseconds since the epoch, an integer
  of absolute value at most 8.64e15, or \<open>NaN\<close> for an Invalid Date, which is \<open>None\<close> here.
  \<open>TimeClip\<close> makes a computed time value outside that range invalid.

  A time stamp is an ISO string written by \<open>toISOString\<close>: it stands for a valid date
  and is held as its time value, and \<open>new Date\<close> of it is that date.

  The local time zone is the host's \<open>LocalTZA(t, isUTC)\<close> of ECMAScript: the offset in
  milliseconds at the UTC time \<open>t\<close> (\<open>isUTC\<close> true) or at the local time \<open>t\<close>
  (\<open>isUTC\<close> false). The getters and setters below are the abstract operations of
  ECMAScript's \<open>Date.prototype\<close> on time values.
\<close>

type_synonym Date = "int option"

type_synonym LocalTZA = "int \<Rightarrow> bool \<Rightarrow> int"

definition fixedOffset :: "int \<Rightarrow> LocalTZA" where
  "fixedOffset off = (\<lambda>t isUTC. off)"

definition msPerDay :: int where
  "msPerDay = 86400000"

definition maxTime :: int where
  "maxTime = 8640000000000000"

definition TimeClip :: "int \<Rightarrow> Date" where
  "TimeClip t = (if \<bar>t\<bar> \<le> maxTime then Some t else None)"

definition Day :: "int \<Rightarrow> int" where
  "Day t = t div msPerDay"

definition TimeWithinDay :: "int \<Rightarrow> int" where
  "TimeWithinDay t = t mod msPerDay"

definition WeekDay :: "int \<Rightarrow> int" where
  "WeekDay t = (Day t + 4) mod 7"

definition LocalTime :: "LocalTZA \<Rightarrow> int \<Rightarrow> int" where
  "LocalTime tz t = t + tz t True"

definition UTC :: "LocalTZA \<Rightarrow> int \<Rightarrow> int" where
  "UTC tz t = t - tz t False"

definition MakeTime :: "int \<Rightarrow> int \<Rightarrow> int \<Rightarrow> int \<Rightarrow> int" where
  "MakeTime hour minute sec ms = hour * 3600000 + minute * 60000 + sec * 1000 + ms"

definition MakeDate :: "int \<Rightarrow> int \<Rightarrow> int" where
  "MakeDate day time = day * msPerDay + time"

text \<open>
  \<open>date.getDay()\<close>: the day of the week in local time, 0 for Sunday; \<open>NaN\<close> (\<open>None\<close>) of
  an Invalid Date.
\<close>

definition getDay :: "LocalTZA \<Rightarrow> Date \<Rightarrow> int option" where
  "getDay tz date =
     (case date of None \<Rightarrow> None | Some t \<Rightarrow> Some (WeekDay (LocalTime tz t)))"

text \<open>
  \<open>date.setDate(date.getDate() + diff)\<close>. \<open>setDate(dt)\<close> keeps the local year, month and
  time of day and moves to the day \<open>MakeDay(year, month, dt)\<close>, which is the day number of
  the first of the month plus \<open>dt - 1\<close>; \<open>getDate()\<close> is the local day number minus the
  day number of the first of the month plus 1. Together the local day number moves by
  \<open>diff\<close>. The new time value goes through \<open>TimeClip\<close>; an Invalid Date stays invalid,
  and a \<open>NaN\<close> argument makes the date invalid.
\<close>

definition setDate_getDate_plus :: "LocalTZA \<Rightarrow> Date \<Rightarrow> int option \<Rightarrow> Date" where
  "setDate_getDate_plus tz date diff =
     (case (date, diff) of
        (Some t, Some k) \<Rightarrow>
          let lt = LocalTime tz t
          in TimeClip (UTC tz (MakeDate (Day lt + k) (TimeWithinDay lt)))
      | _ \<Rightarrow> None)"

text \<open>
  \<open>date.setHours(hour, min, sec, ms)\<close>: keeps the local day; the new time value goes
  through \<open>TimeClip\<close>.
\<close>

definition setHours :: "LocalTZA \<Rightarrow> Date \<Rightarrow> int \<Rightarrow> int \<Rightarrow> int \<Rightarrow> int \<Rightarrow> Date" where
  "setHours tz date hour minute sec ms =
     (case date of
        None \<Rightarrow> None
      | Some t \<Rightarrow>
          TimeClip (UTC tz (MakeDate (Day (LocalTime tz t)) (MakeTime hour minute sec ms))))"

text \<open>
  The time value of \<open>new Date(v)\<close> for a time stamp or \<open>null\<close>: \<open>null\<close> is the epoch.
\<close>

definition new_Date :: "int option \<Rightarrow> int" where
  "new_Date v = (case v of None \<Rightarrow> 0 | Some t \<Rightarrow> t)"

subsection \<open>Week boundaries\<close>

text \<open>
  \<open>Utils.getWeekStart\<close>, \<open>Utils.getWeekEnd\<close> and \<open>Utils.isInSameWeek\<close> (utils.js).
  \<open>day === 0 ? -6 : 1 - day\<close> is \<open>NaN\<close> when \<open>day\<close> is; \<open>===\<close> on two \<open>getTime()\<close> is
  false when one is \<open>NaN\<close>.
\<close>

definition Utils_getWeekStart :: "LocalTZA \<Rightarrow> Date \<Rightarrow> Date" where
  "Utils_getWeekStart tz date =
     (let result = date;
          day = getDay tz result;
          diff = (case day of None \<Rightarrow> None | Some n \<Rightarrow> Some (if n = 0 then - 6 else 1 - n));
          result = setDate_getDate_plus tz result diff;
          result = setHours tz result 0 0 0 0
      in result)"

definition Utils_getWeekEnd :: "LocalTZA \<Rightarrow> Date \<Rightarrow> Date" where
  "Utils_getWeekEnd tz date =
     (let result = Utils_getWeekStart tz date;
          result = setDate_getDate_plus tz result (Some 6);
          result = setHours tz result 23 59 59 999
      in result)"

definition Utils_isInSameWeek :: "LocalTZA \<Rightarrow> Date \<Rightarrow> Date \<Rightarrow> bool" where
  "Utils_isInSameWeek tz target weekOf =
     (let targetStart = Utils_getWeekStart tz target;
          weekStart = Utils_getWeekStart tz weekOf
      in case (targetStart, weekStart) of
           (Some a, Some b) \<Rightarrow> a = b
         | _ \<Rightarrow> False)"

text \<open>\<open>ApiService.getWeekStart\<close> (apiService.js), used by the grouping of a batch.\<close>

definition ApiService_getWeekStart :: "LocalTZA \<Rightarrow> Date \<Rightarrow> Date" where
  "ApiService_getWeekStart tz date =
     (let result = date;
          day = getDay tz result;
          diff = (case day of None \<Rightarrow> None | Some n \<Rightarrow> Some (if n = 0 then - 6 else 1 - n));
          result = setDate_getDate_plus tz result diff;
          result = setHours tz result 0 0 0 0
      in result)"

section \<open>Data model\<close>

text \<open>
  The language object returned by \<open>languageService.detectLanguage\<close>: \<open>{id, name, color}\<close>.
\<close>

record language =
  lang_id :: int
  lang_name :: string
  lang_color :: string

text \<open>
  The session object of extension.js is \<open>{id, language, projectName, filePath, startTime,
  endTime, duration}\<close>; \<open>endTime\<close> is \<open>null\<close> until \<open>endSession\<close> stamps it. The object
  that \<open>addOfflineSession\<close> stores keeps \<open>id\<close>, \<open>language\<close>, \<open>startTime\<close>, \<open>endTime\<close> and
  \<open>duration\<close>, so the stored record is the base and the session extends it.
\<close>

record offlineSession =
  session_id :: string
  language :: language
  startTime :: int
  endTime :: "int option"
  duration :: int

record session = offlineSession +
  projectName :: string
  filePath :: string

text \<open>
  \<open>SessionData\<close> of apiService.js: what is sent to the API. Its field \<open>duration\<close> is
  \<open>duration_sec\<close> here; \<open>project_name\<close> and \<open>file_path\<close> are optional properties.
\<close>

record SessionData =
  language_id :: int
  start_time :: int
  end_time :: "int option"
  duration_sec :: int
  project_name :: "string option"
  file_path :: "string option"

text \<open>
  The settings read with \<open>config.get\<close>. The setting \<open>uploadInterval\<close> is
  \<open>uploadIntervalSecs\<close> here, the name of the variable that receives it. An unset
  \<open>apiKey\<close> is the empty string, its default.
\<close>

record config =
  apiKey :: string
  idleThreshold :: int
  uploadIntervalSecs :: int
  uploadBatchSize :: int
  excludedProjects :: "string list"
  excludedFiles :: "string list"
  enabled :: bool
  autoTrackEnabled :: bool
  minSessionDuration :: int

text \<open>
  What the code reads of a \<open>vscode.TextDocument\<close>: \<open>isUntitled\<close>, \<open>uri.scheme\<close>,
  \<open>uri.fsPath\<close>, \<open>languageId\<close>, and the path of its workspace folder when
  \<open>vscode.workspace.getWorkspaceFolder\<close> finds one.
\<close>

record document =
  isUntitled :: bool
  scheme :: string
  fsPath :: string
  workspaceFolder :: "string option"
  languageId :: string

text \<open>
  What one run of a handler takes from outside: the settings, the clock (\<open>new Date()\<close>,
  one reading for the handler), the identifier \<open>uuidv4()\<close> returns, whether the request
  of \<open>apiService.sendSession\<close> or \<open>apiService.sendBatchSessions\<close> resolves, whether
  \<open>globalState.update\<close> resolves, and the library functions \<open>path.basename\<close>,
  \<open>path.relative\<close>, \<open>minimatch\<close> and \<open>languageService.detectLanguage\<close>.
  An awaited call is taken together with its continuation.
\<close>

record env =
  cfg :: config
  now :: int
  uuidv4 :: string
  sendSession_ok :: bool
  sendBatchSessions_ok :: bool
  update_ok :: bool
  basename :: "string \<Rightarrow> string"
  relative :: "string \<Rightarrow> string \<Rightarrow> string"
  minimatch :: "string \<Rightarrow> string \<Rightarrow> bool"
  detectLanguage :: "string \<Rightarrow> string \<Rightarrow> language"

datatype error = TypeError | RangeError | RequestFailed

text \<open>The messages shown to the user, with the numbers they print.\<close>

datatype notice =
    PleaseSetApiKey
  | TrackerStarted
  | TrackerStopped
  | AutomaticTrackingEnabled
  | AutomaticTrackingDisabled
  | SessionSavedOffline
  | StoredOffline nat
  | SyncingRemaining nat
  | SessionsSynced nat

text \<open>
  What a handler does to the outside, in order. \<open>SessionOpened\<close> marks the assignment of
  a new object to \<open>activeSession\<close> in \<open>startSession\<close>, \<open>SessionClosed\<close> the assignment of
  \<open>null\<close> in \<open>endSession\<close>, with the session as stamped. \<open>ApiSendSession\<close> and
  \<open>ApiSendBatchSessions\<close> are the calls of the API service with their argument and
  whether the request resolved; \<open>SetTimeout\<close> is \<open>setTimeout(sendOfflineSessions, delay)\<close>.
  The text of the status bar item, the summary view and the console are left out.
\<close>

datatype effect =
    SessionOpened session
  | SessionClosed session
  | ApiSendSession SessionData bool
  | ApiSendBatchSessions "SessionData list" bool
  | SetTimeout int
  | ShowInformationMessage notice
  | ShowWarningMessage notice
  | SetStatusBarMessage notice

text \<open>
  The module-level variables of extension.js, the \<open>offlineSessions\<close> key of the global
  state, and the effects so far. A running interval timer holds what its callback
  captured: the idle threshold, the upload interval in milliseconds.
\<close>

record state =
  activeSession :: "session option"
  lastActivityTime :: "int option"
  activityCheckInterval :: "int option"
  uploadInterval :: "int option"
  isTracking :: bool
  pendingUpload :: bool
  uploadRetryCount :: nat
  offlineSessions :: "offlineSession list"
  trace :: "effect list"

definition initial :: state where
  "initial = \<lparr>activeSession = None, lastActivityTime = None, activityCheckInterval = None,
     uploadInterval = None, isTracking = False, pendingUpload = False, uploadRetryCount = 0,
     offlineSessions = [], trace = []\<rparr>"

definition emit :: "effect \<Rightarrow> state \<Rightarrow> state" where
  "emit x st = st\<lparr>trace := trace st @ [x]\<rparr>"

section \<open>StorageService.js\<close>

text \<open>\<open>sessions.slice(0, limit)\<close>: a negative limit counts from the end.\<close>

definition slice0 :: "'a list \<Rightarrow> int \<Rightarrow> 'a list" where
  "slice0 xs limit =
     (let len = int (length xs);
          final = (if limit < 0 then max (len + limit) 0 else min limit len)
      in take (nat final) xs)"

text \<open>\<open>getOfflineSessions(limit = Infinity)\<close>: no limit is \<open>None\<close>.\<close>

definition getOfflineSessions :: "int option \<Rightarrow> state \<Rightarrow> offlineSession list" where
  "getOfflineSessions limit st =
     (let sessions = offlineSessions st
      in case limit of None \<Rightarrow> sessions | Some l \<Rightarrow> slice0 sessions l)"

definition getOfflineSessionCount :: "state \<Rightarrow> nat" where
  "getOfflineSessionCount st = length (offlineSessions st)"

definition hasOfflineSessions :: "state \<Rightarrow> bool" where
  "hasOfflineSessions st = (getOfflineSessionCount st > 0)"

definition thresholds :: "nat list" where
  "thresholds = [10, 50, 100, 500]"

definition maybeTriggerOfflineWarning :: "nat \<Rightarrow> state \<Rightarrow> state" where
  "maybeTriggerOfflineWarning count st =
     (if count \<in> set thresholds then emit (ShowWarningMessage (StoredOffline count)) st
      else st)"

text \<open>
  \<open>addOfflineSession\<close>: when \<open>globalState.update\<close> rejects, the \<open>catch\<close> logs and the
  warning check is skipped.
\<close>

definition addOfflineSession :: "env \<Rightarrow> session \<Rightarrow> state \<Rightarrow> state" where
  "addOfflineSession e s st =
     (let sessions = getOfflineSessions None st @
            [\<lparr>session_id = session_id s, language = language s, startTime = startTime s,
              endTime = endTime s, duration = duration s\<rparr>]
      in if update_ok e
         then maybeTriggerOfflineWarning (length sessions) (st\<lparr>offlineSessions := sessions\<rparr>)
         else st)"

text \<open>\<open>removeOfflineSessions(count)\<close>: \<open>slice(count)\<close>, the count being a length.\<close>

definition removeOfflineSessions :: "env \<Rightarrow> nat \<Rightarrow> state \<Rightarrow> state" where
  "removeOfflineSessions e count st =
     (let sessions = getOfflineSessions None st;
          remainingSessions = drop count sessions
      in if update_ok e then st\<lparr>offlineSessions := remainingSessions\<rparr> else st)"

section \<open>apiService.js: grouping a batch\<close>

text \<open>
  The \<open>Map\<close> of \<open>groupSessionsByLanguage\<close> is an association list in insertion order:
  \<open>AList.update\<close> replaces the value of a key in place and puts a new key last, as
  \<open>Map.prototype.set\<close> does. The key \<open>`${language_id}_${weekStart.toISOString()}`\<close> is the
  pair of the language and the week start.
\<close>

type_synonym sessionMap = "((int \<times> int) \<times> SessionData) list"

text \<open>\<open>x || d\<close> on an optional string: a missing and an empty string are falsy.\<close>

definition or_default :: "string option \<Rightarrow> string \<Rightarrow> string" where
  "or_default x d = (case x of None \<Rightarrow> d | Some s \<Rightarrow> if s = [] then d else s)"

text \<open>
  The body of the loop. \<open>weekStart.toISOString()\<close> throws a \<open>RangeError\<close> when the week
  start is an Invalid Date. \<open>group\<close> is the object \<open>sessionMap.get(key)\<close> returns after the
  conditional \<open>sessionMap.set\<close>: the one just made when the key was new. The loop
  then updates that object in the map.
\<close>

definition groupSession :: "LocalTZA \<Rightarrow> SessionData \<Rightarrow> sessionMap \<Rightarrow> error + sessionMap" where
  "groupSession tz session sessionMap =
     (let startTime = Some (start_time session)
      in case ApiService_getWeekStart tz startTime of
           None \<Rightarrow> Inl RangeError
         | Some weekStart \<Rightarrow>
             let key = (language_id session, weekStart);
                 group = (case map_of sessionMap key of
                            None \<Rightarrow>
                              \<lparr>language_id = language_id session, start_time = weekStart,
                               end_time = end_time session, duration_sec = 0,
                               project_name =
                                 Some (or_default (project_name session) ''Unknown''),
                               file_path = Some (or_default (file_path session) [])\<rparr>
                          | Some g \<Rightarrow> g);
                 group = group\<lparr>duration_sec := duration_sec group + duration_sec session\<rparr>;
                 currentEndTime = new_Date (end_time group);
                 newEndTime = new_Date (end_time session);
                 group = (if newEndTime > currentEndTime
                          then group\<lparr>end_time := end_time session\<rparr> else group)
             in Inr (AList.update key group sessionMap))"

text \<open>The loop over the sessions: an exception leaves it.\<close>

fun groupSessions :: "LocalTZA \<Rightarrow> SessionData list \<Rightarrow> sessionMap \<Rightarrow> error + sessionMap" where
  "groupSessions tz [] sessionMap = Inr sessionMap"
| "groupSessions tz (session # sessions) sessionMap =
     (case groupSession tz session sessionMap of
        Inl err \<Rightarrow> Inl err
      | Inr sessionMap \<Rightarrow> groupSessions tz sessions sessionMap)"

definition groupSessionsByLanguage ::
  "LocalTZA \<Rightarrow> SessionData list \<Rightarrow> error + SessionData list" where
  "groupSessionsByLanguage tz sessions =
     (if sessions = [] then Inr []
      else case groupSessions tz sessions [] of
             Inl err \<Rightarrow> Inl err
           | Inr sessionMap \<Rightarrow> Inr (map snd sessionMap))"

section \<open>extension.js: the session tracker\<close>

definition shouldTrackDocument :: "env \<Rightarrow> state \<Rightarrow> document option \<Rightarrow> bool" where
  "shouldTrackDocument e st doc =
     (case doc of
        None \<Rightarrow> False
      | Some d \<Rightarrow>
          if isUntitled d \<or> scheme d \<noteq> ''file'' then False
          else if \<not> enabled (cfg e) then False
          else if \<not> autoTrackEnabled (cfg e) \<and> \<not> isTracking st then False
          else
            let filePath = fsPath d;
                projectName = (case workspaceFolder d of
                                 Some folder \<Rightarrow> basename e folder
                               | None \<Rightarrow> ''unknown'')
            in if projectName \<in> set (excludedProjects (cfg e)) then False
               else if list_ex (\<lambda>pattern. minimatch e filePath pattern) (excludedFiles (cfg e))
               then False
               else True)"

text \<open>
  \<open>sendSession\<close>: \<open>session.endTime.toISOString()\<close> throws on \<open>null\<close>, before the API is
  called; otherwise the request is made and resolves or rejects.
\<close>

definition sendSession :: "env \<Rightarrow> session \<Rightarrow> state \<Rightarrow> (error + unit) \<times> state" where
  "sendSession e s st =
     (case endTime s of
        None \<Rightarrow> (Inl TypeError, st)
      | Some en \<Rightarrow>
          let sessionData = \<lparr>language_id = lang_id (language s), start_time = startTime s,
                end_time = Some en, duration_sec = duration s,
                project_name = None, file_path = None\<rparr>;
              st = emit (ApiSendSession sessionData (sendSession_ok e)) st
          in (if sendSession_ok e then Inr () else Inl RequestFailed, st))"

definition saveSession :: "env \<Rightarrow> session \<Rightarrow> state \<Rightarrow> state" where
  "saveSession e s st =
     (case sendSession e s st of
        (Inr u, st) \<Rightarrow> st
      | (Inl err, st) \<Rightarrow>
          let st = addOfflineSession e s st
          in if getOfflineSessionCount st = 1
             then emit (ShowInformationMessage SessionSavedOffline) st
             else st)"

definition endSession :: "env \<Rightarrow> state \<Rightarrow> state" where
  "endSession e st =
     (case activeSession st of
        None \<Rightarrow> st
      | Some a \<Rightarrow>
          let a = a\<lparr>endTime := Some (now e),
                    duration := (now e - startTime a) div 1000\<rparr>;
              minDuration = minSessionDuration (cfg e);
              st = (if duration a \<ge> minDuration then saveSession e a st else st)
          in emit (SessionClosed a) (st\<lparr>activeSession := None\<rparr>))"

definition startSession :: "env \<Rightarrow> document \<Rightarrow> state \<Rightarrow> state" where
  "startSession e d st =
     (let st = (if activeSession st \<noteq> None then endSession e st else st);
          name = (case workspaceFolder d of
                    Some folder \<Rightarrow> basename e folder
                  | None \<Rightarrow> ''unknown'');
          path = fsPath d;
          relativePath = (case workspaceFolder d of
                            Some folder \<Rightarrow> relative e folder path
                          | None \<Rightarrow> path);
          lang = detectLanguage e path (languageId d);
          a = \<lparr>session_id = uuidv4 e, language = lang, startTime = now e, endTime = None,
               duration = 0, projectName = name, filePath = relativePath\<rparr>
      in emit (SessionOpened a) (st\<lparr>activeSession := Some a\<rparr>))"

text \<open>
  \<open>checkActivity\<close>: \<open>(now - lastActivityTime) / 1000 > idleThresholdSeconds\<close>, on
  integers.
\<close>

definition checkActivity :: "env \<Rightarrow> int \<Rightarrow> state \<Rightarrow> state" where
  "checkActivity e idleThresholdSeconds st =
     (case (activeSession st, lastActivityTime st) of
        (Some a, Some lastActivity) \<Rightarrow>
          if now e - lastActivity > idleThresholdSeconds * 1000 then endSession e st else st
      | _ \<Rightarrow> st)"

definition onDocumentChange :: "env \<Rightarrow> document \<Rightarrow> state \<Rightarrow> state" where
  "onDocumentChange e d st =
     (if \<not> isTracking st then st
      else
        let st = st\<lparr>lastActivityTime := Some (now e)\<rparr>
        in if activeSession st = None \<and> shouldTrackDocument e st (Some d)
           then startSession e d st else st)"

text \<open>An editor is its document; no editor is \<open>None\<close>.\<close>

definition onEditorChange :: "env \<Rightarrow> document option \<Rightarrow> state \<Rightarrow> state" where
  "onEditorChange e editor st =
     (case editor of
        None \<Rightarrow> st
      | Some d \<Rightarrow>
          if \<not> isTracking st then st
          else
            let st = st\<lparr>lastActivityTime := Some (now e)\<rparr>;
                st = (if activeSession st \<noteq> None then endSession e st else st)
            in if shouldTrackDocument e st (Some d) then startSession e d st else st)"

text \<open>
  \<open>onWindowStateChange\<close>, with \<open>state.focused\<close> and the document of
  \<open>vscode.window.activeTextEditor\<close>.
\<close>

definition onWindowStateChange :: "env \<Rightarrow> bool \<Rightarrow> document option \<Rightarrow> state \<Rightarrow> state" where
  "onWindowStateChange e focused activeTextEditor st =
     (if \<not> isTracking st then st
      else if focused then
        let st = st\<lparr>lastActivityTime := Some (now e)\<rparr>
        in case activeTextEditor of
             None \<Rightarrow> st
           | Some d \<Rightarrow>
               if activeSession st = None \<and> shouldTrackDocument e st (Some d)
               then startSession e d st else st
      else if activeSession st \<noteq> None then endSession e st else st)"

definition startTracking :: "env \<Rightarrow> document option \<Rightarrow> state \<Rightarrow> state" where
  "startTracking e activeTextEditor st =
     (if isTracking st then st
      else if apiKey (cfg e) = [] then emit (ShowWarningMessage PleaseSetApiKey) st
      else
        let st = st\<lparr>isTracking := True, lastActivityTime := Some (now e)\<rparr>;
            st = st\<lparr>activityCheckInterval := Some (idleThreshold (cfg e))\<rparr>;
            st = st\<lparr>uploadInterval := Some (uploadIntervalSecs (cfg e) * 1000)\<rparr>;
            st = (case activeTextEditor of
                    None \<Rightarrow> st
                  | Some d \<Rightarrow>
                      if shouldTrackDocument e st (Some d) then startSession e d st else st)
        in emit (ShowInformationMessage TrackerStarted) st)"

definition stopTracking :: "env \<Rightarrow> state \<Rightarrow> state" where
  "stopTracking e st =
     (if \<not> isTracking st then st
      else
        let st = st\<lparr>isTracking := False\<rparr>;
            st = st\<lparr>activityCheckInterval := None\<rparr>;
            st = st\<lparr>uploadInterval := None\<rparr>;
            st = (if activeSession st \<noteq> None then endSession e st else st)
        in emit (ShowInformationMessage TrackerStopped) st)"

text \<open>
  \<open>toggleAutoTracking\<close>: the environment holds the settings after the awaited update,
  and \<open>currentAutoTrack\<close> is the value read before it.
\<close>

definition toggleAutoTracking :: "env \<Rightarrow> bool \<Rightarrow> document option \<Rightarrow> state \<Rightarrow> state" where
  "toggleAutoTracking e currentAutoTrack activeTextEditor st =
     (if \<not> currentAutoTrack then
        let st = emit (ShowInformationMessage AutomaticTrackingEnabled) st
        in case activeTextEditor of
             None \<Rightarrow> st
           | Some d \<Rightarrow>
               if isTracking st \<and> shouldTrackDocument e st (Some d)
               then startSession e d st else st
      else
        let st = emit (ShowInformationMessage AutomaticTrackingDisabled) st
        in if activeSession st \<noteq> None then endSession e st else st)"

section \<open>extension.js: the offline queue\<close>

text \<open>
  The batch size \<open>sendOfflineSessions\<close> chooses from the number of queued sessions, and
  the object it makes of a stored session for the API.
\<close>

definition adaptiveBatchSize :: "config \<Rightarrow> int \<Rightarrow> int" where
  "adaptiveBatchSize config totalSessions =
     (let batchSize = uploadBatchSize config;
          batchSize = (if totalSessions > 100 then 50 else batchSize);
          batchSize = (if totalSessions > 500 then 100 else batchSize)
      in batchSize)"

definition formatSession :: "offlineSession \<Rightarrow> SessionData" where
  "formatSession s =
     \<lparr>language_id = lang_id (language s), start_time = startTime s, end_time = endTime s,
      duration_sec = duration s, project_name = None, file_path = None\<rparr>"

text \<open>
  \<open>sendOfflineSessions\<close>. The \<open>finally\<close> clears \<open>pendingUpload\<close> on every path that set it.
  The \<open>catch\<close> is the branch where the batch request rejects.
\<close>

definition sendOfflineSessions :: "env \<Rightarrow> state \<Rightarrow> state" where
  "sendOfflineSessions e st =
     (if \<not> hasOfflineSessions st \<or> pendingUpload st then st
      else
        let st = st\<lparr>pendingUpload := True\<rparr>
        in if apiKey (cfg e) = [] then st\<lparr>pendingUpload := False\<rparr>
           else
             let totalSessions = int (getOfflineSessionCount st);
                 batchSize = adaptiveBatchSize (cfg e) totalSessions;
                 sessionsToSend = getOfflineSessions (Some batchSize) st
             in if length sessionsToSend = 0 then st\<lparr>pendingUpload := False\<rparr>
                else
                  let formattedSessions = map formatSession sessionsToSend;
                      st = emit (ApiSendBatchSessions formattedSessions
                                   (sendBatchSessions_ok e)) st
                  in if sendBatchSessions_ok e then
                       let st = removeOfflineSessions e (length sessionsToSend) st;
                           st = (if totalSessions > 100
                                 then emit (SetStatusBarMessage
                                              (SyncingRemaining (getOfflineSessionCount st))) st
                                 else st);
                           st = (if hasOfflineSessions st then
                                   let delay = min (max 500
                                         (if totalSessions > 1000 then 500 else 2000)) 5000
                                   in emit (SetTimeout delay) st
                                 else if totalSessions \<ge> batchSize then
                                   emit (ShowInformationMessage
                                           (SessionsSynced (nat totalSessions))) st
                                 else st);
                           st = st\<lparr>uploadRetryCount := 0\<rparr>
                       in st\<lparr>pendingUpload := False\<rparr>
                     else
                       let st = (if uploadRetryCount st < 5 then
                                   let st = st\<lparr>uploadRetryCount := uploadRetryCount st + 1\<rparr>
                                   in emit (SetTimeout (1000 * 2 ^ uploadRetryCount st)) st
                                 else st\<lparr>uploadRetryCount := 0\<rparr>)
                       in st\<lparr>pendingUpload := False\<rparr>)"

section \<open>Events\<close>

text \<open>
  The handlers the host calls: the three listeners, the start and stop commands, the
  auto-tracking toggle, the idle check and the upload of the two interval timers, and the
  drain that \<open>setTimeout\<close> scheduled. A cleared interval timer does not fire.
\<close>

datatype event =
    DocumentChange document
  | EditorChange "document option"
  | WindowStateChange bool "document option"
  | StartTracking "document option"
  | StopTracking
  | ToggleAutoTracking bool "document option"
  | IdleTick
  | UploadTick
  | RetryTimer

fun step :: "env \<Rightarrow> event \<Rightarrow> state \<Rightarrow> state" where
  "step e (DocumentChange d) st = onDocumentChange e d st"
| "step e (EditorChange editor) st = onEditorChange e editor st"
| "step e (WindowStateChange focused editor) st = onWindowStateChange e focused editor st"
| "step e (StartTracking editor) st = startTracking e editor st"
| "step e StopTracking st = stopTracking e st"
| "step e (ToggleAutoTracking current editor) st = toggleAutoTracking e current editor st"
| "step e IdleTick st =
     (case activityCheckInterval st of
        None \<Rightarrow> st
      | Some threshold \<Rightarrow> checkActivity e threshold st)"
| "step e UploadTick st =
     (case uploadInterval st of None \<Rightarrow> st | Some ms \<Rightarrow> sendOfflineSessions e st)"
| "step e RetryTimer st = sendOfflineSessions e st"

fun run :: "(env \<times> event) list \<Rightarrow> state \<Rightarrow> state" where
  "run [] st = st"
| "run ((e, ev) # evs) st = run evs (step e ev st)"

section \<open>Reading a trace\<close>

text \<open>The delays of the drains scheduled with \<open>setTimeout\<close>, in order.\<close>

fun timeouts :: "effect list \<Rightarrow> int list" where
  "timeouts [] = []"
| "timeouts (SetTimeout delay # xs) = delay # timeouts xs"
| "timeouts (x # xs) = timeouts xs"

text \<open>The batches handed to \<open>apiService.sendBatchSessions\<close>, in order.\<close>

fun batches :: "effect list \<Rightarrow> SessionData list list" where
  "batches [] = []"
| "batches (ApiSendBatchSessions b ok # xs) = b # batches xs"
| "batches (x # xs) = batches xs"

text \<open>
  The calls of \<open>apiService.sendSession\<close>, in order, each with whether the request
  resolved.
\<close>

fun sends :: "effect list \<Rightarrow> (SessionData \<times> bool) list" where
  "sends [] = []"
| "sends (ApiSendSession d ok # xs) = (d, ok) # sends xs"
| "sends (x # xs) = sends xs"

text \<open>The offline warnings shown, in order, each with the count it prints.\<close>

fun warnings :: "effect list \<Rightarrow> nat list" where
  "warnings [] = []"
| "warnings (ShowWarningMessage (StoredOffline n) # xs) = n # warnings xs"
| "warnings (x # xs) = warnings xs"

text \<open>
  Following the open session through a trace. From the session open before the trace
  (\<open>None\<close> when there is none), the result is \<open>None\<close> when the trace opens a session while
  one is open, or closes one that is not the open session with its end stamped; else
  it is the session open after the trace.
\<close>

fun lifecycle :: "session option \<Rightarrow> effect list \<Rightarrow> session option option" where
  "lifecycle cur [] = Some cur"
| "lifecycle cur (SessionOpened s # xs) =
     (if cur = None then lifecycle (Some s) xs else None)"
| "lifecycle cur (SessionClosed s # xs) =
     (case cur of
        None \<Rightarrow> None
      | Some a \<Rightarrow>
          if s = a\<lparr>endTime := endTime s, duration := duration s\<rparr> \<and> endTime s \<noteq> None
          then lifecycle None xs else None)"
| "lifecycle cur (x # xs) = lifecycle cur xs"

text \<open>How many sessions a trace opens, and how many it closes.\<close>

fun opens :: "effect list \<Rightarrow> nat" where
  "opens [] = 0"
| "opens (SessionOpened s # xs) = Suc (opens xs)"
| "opens (x # xs) = opens xs"

fun closes :: "effect list \<Rightarrow> nat" where
  "closes [] = 0"
| "closes (SessionClosed s # xs) = Suc (closes xs)"
| "closes (x # xs) = closes xs"

text \<open>The sessions of a list that fall into the group of a key, in input order.\<close>

definition session_key :: "LocalTZA \<Rightarrow> SessionData \<Rightarrow> int \<times> Date" where
  "session_key tz s = (language_id s, ApiService_getWeekStart tz (Some (start_time s)))"

definition members :: "LocalTZA \<Rightarrow> int \<times> Date \<Rightarrow> SessionData list \<Rightarrow> SessionData list" where
  "members tz k sessions = filter (\<lambda>s. session_key tz s = k) sessions"

definition group_key :: "SessionData \<Rightarrow> int \<times> Date" where
  "group_key g = (language_id g, Some (start_time g))"

text \<open>
  The spec's contract of the week start, as a local time: \<open>d\<close> shifted to the Monday of
  its week (the days since Monday are \<open>(WeekDay + 6) mod 7\<close>), the time truncated to
  00:00:00.000.
\<close>

definition local_monday :: "LocalTZA \<Rightarrow> int \<Rightarrow> int" where
  "local_monday tz d =
     (Day (LocalTime tz d) - (WeekDay (LocalTime tz d) + 6) mod 7) * msPerDay"

text \<open>
  A local time that the zone does not skip comes back from UTC as itself; a skipped one
  (in the gap of a clock change forward) comes back later, and may come back on
  another day.
\<close>

definition not_skipped :: "LocalTZA \<Rightarrow> int \<Rightarrow> bool" where
  "not_skipped tz l \<longleftrightarrow> LocalTime tz (UTC tz l) = l"

definition keeps_day :: "LocalTZA \<Rightarrow> int \<Rightarrow> bool" where
  "keeps_day tz l \<longleftrightarrow> Day (LocalTime tz (UTC tz l)) = Day l"

section \<open>Notions for the statements\<close>

text \<open>
  The objects the code builds of a session: the argument of \<open>apiService.sendSession\<close>
  that \<open>sendSession\<close> makes, the object \<open>addOfflineSession\<close> stores, and the session as
  \<open>endSession\<close> stamps it at the time \<open>t\<close>.
\<close>

definition sessionData_of :: "session \<Rightarrow> SessionData" where
  "sessionData_of s = \<lparr>language_id = lang_id (language s), start_time = startTime s,
      end_time = endTime s, duration_sec = duration s, project_name = None, file_path = None\<rparr>"

definition stored_of :: "session \<Rightarrow> offlineSession" where
  "stored_of s = \<lparr>session_id = session_id s, language = language s, startTime = startTime s,
      endTime = endTime s, duration = duration s\<rparr>"

definition stamp :: "int \<Rightarrow> session \<Rightarrow> session" where
  "stamp t a = a\<lparr>endTime := Some t, duration := (t - startTime a) div 1000\<rparr>"

text \<open>
  An environment in which a drain that reaches the request fails: a key is set, the
  configured batch size is positive, and the batch request rejects. The batch such a
  drain sends is the head of the queue.
\<close>

definition drain_fails :: "env \<Rightarrow> bool" where
  "drain_fails e \<longleftrightarrow>
     apiKey (cfg e) \<noteq> [] \<and> 0 < uploadBatchSize (cfg e) \<and> \<not> sendBatchSessions_ok e"

definition batch_of :: "config \<Rightarrow> offlineSession list \<Rightarrow> SessionData list" where
  "batch_of config queue =
     map formatSession
       (take (nat (adaptiveBatchSize config (int (length queue)))) queue)"

text \<open>
  A state whose trace follows its open session: the trace is a well-formed session
  life cycle, and the session it leaves open is \<open>activeSession\<close>.
\<close>

definition tracked :: "state \<Rightarrow> bool" where
  "tracked st \<longleftrightarrow> lifecycle None (trace st) = Some (activeSession st)"

text \<open>
  A group record \<open>g\<close> summarises the members \<open>ms\<close> of the key \<open>k\<close>; the session map
  \<open>m\<close> is the grouping of the sessions \<open>xs\<close>.
\<close>

definition summarises :: "SessionData list \<Rightarrow> int \<times> int \<Rightarrow> SessionData \<Rightarrow> bool" where
  "summarises ms k g \<longleftrightarrow>
     ms \<noteq> [] \<and> language_id g = fst k \<and> start_time g = snd k \<and>
     duration_sec g = sum_list (map duration_sec ms) \<and>
     end_time g \<in> set (map end_time ms) \<and>
     list_all (\<lambda>s. new_Date (end_time s) \<le> new_Date (end_time g)) ms \<and>
     project_name g = Some (or_default (project_name (hd ms)) ''Unknown'') \<and>
     file_path g = Some (or_default (file_path (hd ms)) [])"

definition grouped :: "LocalTZA \<Rightarrow> SessionData list \<Rightarrow> sessionMap \<Rightarrow> bool" where
  "grouped tz xs m \<longleftrightarrow>
     distinct (map fst m) \<and>
     list_all (\<lambda>s. snd (session_key tz s) \<noteq> None) xs \<and>
     (\<forall>l w. case map_of m (l, w) of
              None \<Rightarrow> members tz (l, Some w) xs = []
            | Some g \<Rightarrow> summarises (members tz (l, Some w) xs) (l, w) g)"

section \<open>Sample inputs\<close>

text \<open>
  A Python file in a workspace folder, the default settings with a key, a host whose
  requests all resolve or all reject, a state with one open session started at time 0,
  states with \<open>n\<close> stored sessions, a queue of three sessions with a batch size of 2,
  and three sessions of one week in two languages.
\<close>

definition python :: language where
  "python = \<lparr>lang_id = 3, lang_name = ''Python'', lang_color = ''#3572A5''\<rparr>"

definition sample_config :: config where
  "sample_config =
     \<lparr>apiKey = ''key'', idleThreshold = 120, uploadIntervalSecs = 300, uploadBatchSize = 10,
      excludedProjects = [], excludedFiles = [], enabled = True, autoTrackEnabled = True,
      minSessionDuration = 5\<rparr>"

definition sample_env :: "int \<Rightarrow> bool \<Rightarrow> env" where
  "sample_env t ok =
     \<lparr>cfg = sample_config, now = t, uuidv4 = ''id'', sendSession_ok = ok,
      sendBatchSessions_ok = ok, update_ok = True, basename = (\<lambda>p. ''project''),
      relative = (\<lambda>folder p. ''a.py''), minimatch = (\<lambda>p pattern. False),
      detectLanguage = (\<lambda>p l. python)\<rparr>"

definition sample_document :: document where
  "sample_document =
     \<lparr>isUntitled = False, scheme = ''file'', fsPath = ''/project/a.py'',
      workspaceFolder = Some ''/project'', languageId = ''python''\<rparr>"

definition sample_session :: session where
  "sample_session =
     \<lparr>session_id = ''id'', language = python, startTime = 0, endTime = None, duration = 0,
      projectName = ''project'', filePath = ''a.py''\<rparr>"

definition tracking :: state where
  "tracking =
     \<lparr>activeSession = Some sample_session, lastActivityTime = Some 0,
      activityCheckInterval = Some 120, uploadInterval = Some 300000, isTracking = True,
      pendingUpload = False, uploadRetryCount = 0, offlineSessions = [],
      trace = [SessionOpened sample_session]\<rparr>"

definition stored :: offlineSession where
  "stored = \<lparr>session_id = ''id'', language = python, startTime = 0, endTime = Some 30000,
      duration = 30\<rparr>"

definition queued :: "nat \<Rightarrow> state" where
  "queued n =
     \<lparr>activeSession = None, lastActivityTime = None, activityCheckInterval = None,
      uploadInterval = None, isTracking = False, pendingUpload = False, uploadRetryCount = 0,
      offlineSessions = replicate n stored, trace = []\<rparr>"

definition stored_at :: "int \<Rightarrow> offlineSession" where
  "stored_at t = \<lparr>session_id = ''id'', language = python, startTime = t,
      endTime = Some (t + 30000), duration = 30\<rparr>"

definition backlog :: state where
  "backlog =
     \<lparr>activeSession = None, lastActivityTime = None, activityCheckInterval = None,
      uploadInterval = None, isTracking = False, pendingUpload = False, uploadRetryCount = 0,
      offlineSessions = [stored_at 0, stored_at 60000, stored_at 120000], trace = []\<rparr>"

definition small_batches :: "bool \<Rightarrow> env" where
  "small_batches ok = (sample_env 0 ok)\<lparr>cfg := sample_config\<lparr>uploadBatchSize := 2\<rparr>\<rparr>"

definition sample_data :: "int \<Rightarrow> int \<Rightarrow> int \<Rightarrow> int \<Rightarrow> string option \<Rightarrow> SessionData" where
  "sample_data l s e d p =
     \<lparr>language_id = l, start_time = s, end_time = Some e, duration_sec = d,
      project_name = p, file_path = None\<rparr>"

definition sample_events :: "(env \<times> event) list" where
  "sample_events =
     [(sample_env 0 True, StartTracking (Some sample_document)),
      (sample_env 60000 True, EditorChange (Some sample_document)),
      (sample_env 60000 True, ToggleAutoTracking False (Some sample_document)),
      (sample_env 70000 False, StopTracking)]"

definition week_a :: SessionData where
  "week_a = sample_data 1 1672574400000 1672574430000 30 (Some ''first'')"

definition week_b :: SessionData where
  "week_b = sample_data 1 1672570000000 1672570045000 45 (Some ''second'')"

definition week_c :: SessionData where
  "week_c = sample_data 2 1672570000000 1672570005000 5 None"

definition week_d :: SessionData where
  "week_d = (sample_data 1 1673000000000 1673000060000 60 (Some ''later''))
       \<lparr>file_path := Some ''later.py''\<rparr>"

text \<open>
  A session that starts at the lower end of the range of \<open>Date\<close>, a Tuesday: the Monday
  before it is not a date.
\<close>

definition early_session :: SessionData where
  "early_session = sample_data 1 (- 8640000000000000) (- 8639999999970000) 30 None"

text \<open>
  The zone of Tehran around Monday 22 March 2021, when the clocks went from 00:00 to
  01:00 local time (UTC+3:30 before 2021-03-21T20:30:00Z, UTC+4:30 from then on). A local
  time in the skipped hour is read with the offset before the change, as ECMAScript has
  it. \<open>tehran_session\<close> starts on Wednesday 24 March 2021, 13:00 local time.
\<close>

definition tehran_2021 :: LocalTZA where
  "tehran_2021 t isUTC =
     (if isUTC then (if t < 1616358600000 then 12600000 else 16200000)
      else (if t < 1616374800000 then 12600000 else 16200000))"

definition tehran_session :: SessionData where
  "tehran_session = sample_data 1 1616574600000 1616574630000 30 None"

lemmas sample_defs = python_def sample_config_def sample_env_def sample_document_def
  sample_session_def tracking_def stored_def queued_def sample_data_def

lemmas date_defs = Utils_getWeekStart_def Utils_getWeekEnd_def ApiService_getWeekStart_def
  getDay_def setDate_getDate_plus_def setHours_def WeekDay_def Day_def TimeWithinDay_def
  LocalTime_def UTC_def MakeDate_def MakeTime_def msPerDay_def fixedOffset_def TimeClip_def
  maxTime_def

lemmas tracker_defs = endSession_def saveSession_def sendSession_def addOfflineSession_def
  getOfflineSessions_def getOfflineSessionCount_def maybeTriggerOfflineWarning_def
  thresholds_def emit_def checkActivity_def Let_def

lemmas handler_defs = startTracking_def stopTracking_def onEditorChange_def
  toggleAutoTracking_def startSession_def shouldTrackDocument_def

lemmas week_defs = week_a_def week_b_def week_c_def week_d_def early_session_def
  tehran_session_def sample_data_def

lemmas zone_defs = tehran_2021_def local_monday_def not_skipped_def keeps_day_def

lemmas queue_defs = addOfflineSession_def getOfflineSessions_def getOfflineSessionCount_def
  maybeTriggerOfflineWarning_def emit_def

section \<open>Week boundaries\<close>

text \<open>
  With a fixed offset from UTC, local time is a shift, and no local time is skipped.
\<close>

lemma LocalTime_fixed: "LocalTime (fixedOffset off) t = t + off"
  by (simp add: LocalTime_def fixedOffset_def)

lemma UTC_fixed: "UTC (fixedOffset off) t = t - off"
  by (simp add: UTC_def fixedOffset_def)



lemma Day_bounds: "Day t * msPerDay \<le> t" "t < (Day t + 1) * msPerDay"
proof -
  have "t = Day t * msPerDay + t mod msPerDay"
    by (simp add: Day_def)
  moreover have "0 \<le> t mod msPerDay" "t mod msPerDay < msPerDay"
    by (simp_all add: msPerDay_def)
  ultimately show "Day t * msPerDay \<le> t" "t < (Day t + 1) * msPerDay"
    by (simp_all add: algebra_simps)
qed

lemma Day_mult: "Day (k * msPerDay) = k" "TimeWithinDay (k * msPerDay) = 0"
  by (simp_all add: Day_def TimeWithinDay_def msPerDay_def)

lemma Day_plus_time:
  assumes "0 \<le> r" "r < msPerDay"
  shows "Day (k * msPerDay + r) = k" "TimeWithinDay (k * msPerDay + r) = r"
  using assms by (simp_all add: Day_def TimeWithinDay_def msPerDay_def)

lemma TimeWithinDay_range: "0 \<le> TimeWithinDay t" "TimeWithinDay t < msPerDay"
  by (simp_all add: TimeWithinDay_def msPerDay_def)

lemma Day_TimeWithinDay: "Day t * msPerDay + TimeWithinDay t = t"
  by (simp add: Day_def TimeWithinDay_def)

lemma diff_days_since_monday_aux:
  fixes w :: int
  assumes "0 \<le> w" "w < 7"
  shows "(if w = 0 then - 6 else 1 - w) = - ((w + 6) mod 7)"
proof -
  from assms have "w = 0 \<or> w = 1 \<or> w = 2 \<or> w = 3 \<or> w = 4 \<or> w = 5 \<or> w = 6"
    by arith
  then show ?thesis
    by (elim disjE) simp_all
qed

lemma diff_days_since_monday:
  fixes D :: int
  shows "(if (D + 4) mod 7 = 0 then - 6 else 1 - (D + 4) mod 7) = - (((D + 4) mod 7 + 6) mod 7)"
  by (rule diff_days_since_monday_aux) simp_all

lemma monday_weekday:
  fixes D :: int
  shows "(D - ((D + 4) mod 7 + 6) mod 7 + 4) mod 7 = 1"
  by presburger

lemma days_since_monday_range:
  fixes w :: int
  shows "0 \<le> (w + 6) mod 7" "(w + 6) mod 7 \<le> 6"
  by presburger+

lemma local_monday_facts:
  "WeekDay (local_monday tz d) = 1"
  "TimeWithinDay (local_monday tz d) = 0"
  "local_monday tz d \<le> LocalTime tz d"
  "LocalTime tz d < local_monday tz d + 7 * msPerDay"
proof -
  define L where "L = LocalTime tz d"
  define k where "k = (WeekDay L + 6) mod 7"
  have m: "local_monday tz d = (Day L - k) * msPerDay"
    by (simp add: local_monday_def L_def k_def)
  have k: "0 \<le> k" "k \<le> 6"
    unfolding k_def by (rule days_since_monday_range)+
  have pos: "0 < msPerDay" by (simp add: msPerDay_def)
  show "WeekDay (local_monday tz d) = 1"
    unfolding m unfolding WeekDay_def Day_mult k_def by (rule monday_weekday)
  show "TimeWithinDay (local_monday tz d) = 0"
    unfolding m by (rule Day_mult)
  have "(Day L - k) * msPerDay \<le> Day L * msPerDay"
    using k pos by simp
  also have "\<dots> \<le> L" by (rule Day_bounds)
  finally show "local_monday tz d \<le> LocalTime tz d"
    by (simp add: m L_def)
  have "L < (Day L + 1) * msPerDay" by (rule Day_bounds)
  also have "\<dots> \<le> (Day L - k + 7) * msPerDay"
    using k pos by simp
  finally show "LocalTime tz d < local_monday tz d + 7 * msPerDay"
    by (simp add: m L_def algebra_simps)
qed

lemma getWeekStart_same: "ApiService_getWeekStart tz date = Utils_getWeekStart tz date"
  by (simp add: ApiService_getWeekStart_def Utils_getWeekStart_def)

lemma getWeekStart_invalid: "Utils_getWeekStart tz None = None"
  by (simp add: Utils_getWeekStart_def getDay_def setDate_getDate_plus_def setHours_def)

lemma shifted_to_monday:
  "MakeDate (Day (LocalTime tz d) +
       (if WeekDay (LocalTime tz d) = 0 then - 6 else 1 - WeekDay (LocalTime tz d)))
     (TimeWithinDay (LocalTime tz d)) =
   local_monday tz d + TimeWithinDay (LocalTime tz d)"
proof -
  have "Day (LocalTime tz d) +
       (if WeekDay (LocalTime tz d) = 0 then - 6 else 1 - WeekDay (LocalTime tz d)) =
     Day (LocalTime tz d) - (WeekDay (LocalTime tz d) + 6) mod 7"
    unfolding WeekDay_def diff_days_since_monday by simp
  then show ?thesis
    by (simp only: MakeDate_def local_monday_def)
qed

lemma getWeekStart_unfold:
  "Utils_getWeekStart tz (Some d) =
     (case TimeClip (UTC tz (local_monday tz d + TimeWithinDay (LocalTime tz d))) of
        None \<Rightarrow> None
      | Some t \<Rightarrow> TimeClip (UTC tz (Day (LocalTime tz t) * msPerDay)))"
proof -
  have "Utils_getWeekStart tz (Some d) =
      setHours tz (TimeClip (UTC tz (MakeDate (Day (LocalTime tz d) +
         (if WeekDay (LocalTime tz d) = 0 then - 6 else 1 - WeekDay (LocalTime tz d)))
         (TimeWithinDay (LocalTime tz d))))) 0 0 0 0"
    by (simp add: Utils_getWeekStart_def getDay_def setDate_getDate_plus_def Let_def
        split del: if_split)
  also have "\<dots> =
      setHours tz (TimeClip (UTC tz (local_monday tz d + TimeWithinDay (LocalTime tz d)))) 0 0 0 0"
    by (simp only: shifted_to_monday)
  finally show ?thesis
    by (simp add: setHours_def MakeDate_def MakeTime_def split: option.splits)
qed

lemma TimeClip_Some: "TimeClip t = Some u \<Longrightarrow> u = t \<and> \<bar>t\<bar> \<le> maxTime"
  by (simp add: TimeClip_def split: if_splits)

lemma getWeekStart_local:
  assumes "Utils_getWeekStart tz (Some d) = Some ws"
    and "keeps_day tz (local_monday tz d + TimeWithinDay (LocalTime tz d))"
    and "not_skipped tz (local_monday tz d)"
  shows "LocalTime tz ws = local_monday tz d"
proof -
  let ?l1 = "local_monday tz d + TimeWithinDay (LocalTime tz d)"
  obtain k where m: "local_monday tz d = k * msPerDay"
    unfolding local_monday_def by blast
  have day1: "Day ?l1 = k"
    unfolding m by (rule Day_plus_time) (rule TimeWithinDay_range)+
  from assms(1) obtain t where t: "TimeClip (UTC tz ?l1) = Some t"
    and ws: "TimeClip (UTC tz (Day (LocalTime tz t) * msPerDay)) = Some ws"
    by (auto simp: getWeekStart_unfold split: option.splits)
  have "t = UTC tz ?l1"
    using TimeClip_Some [OF t] by simp
  then have "Day (LocalTime tz t) = k"
    using assms(2) day1 by (simp add: keeps_day_def)
  then have "ws = UTC tz (local_monday tz d)"
    using TimeClip_Some [OF ws] by (simp add: m)
  then show ?thesis
    using assms(3) by (simp add: not_skipped_def)
qed

lemma getWeekEnd_unfold:
  "Utils_getWeekEnd tz date =
     (case Utils_getWeekStart tz date of
        None \<Rightarrow> None
      | Some ws \<Rightarrow>
          (case TimeClip (UTC tz (LocalTime tz ws + 6 * msPerDay)) of
             None \<Rightarrow> None
           | Some t \<Rightarrow>
               TimeClip (UTC tz (Day (LocalTime tz t) * msPerDay + MakeTime 23 59 59 999))))"
proof -
  have "MakeDate (Day l + 6) (TimeWithinDay l) = l + 6 * msPerDay" for l
    using Day_TimeWithinDay [of l] by (simp add: MakeDate_def algebra_simps)
  then show ?thesis
    by (simp add: Utils_getWeekEnd_def setDate_getDate_plus_def setHours_def Let_def
        MakeDate_def split: option.splits)
qed

lemma getWeekEnd_local:
  assumes "Utils_getWeekEnd tz (Some d) = Some we"
    and "keeps_day tz (local_monday tz d + TimeWithinDay (LocalTime tz d))"
    and "not_skipped tz (local_monday tz d)"
    and "keeps_day tz (local_monday tz d + 6 * msPerDay)"
    and "not_skipped tz (local_monday tz d + 6 * msPerDay + MakeTime 23 59 59 999)"
  shows "LocalTime tz we = local_monday tz d + 6 * msPerDay + MakeTime 23 59 59 999"
proof -
  obtain k where m: "local_monday tz d = k * msPerDay"
    unfolding local_monday_def by blast
  from assms(1) obtain ws t where ws: "Utils_getWeekStart tz (Some d) = Some ws"
    and t: "TimeClip (UTC tz (LocalTime tz ws + 6 * msPerDay)) = Some t"
    and we: "TimeClip (UTC tz (Day (LocalTime tz t) * msPerDay + MakeTime 23 59 59 999)) = Some we"
    by (auto simp: getWeekEnd_unfold split: option.splits)
  have lws: "LocalTime tz ws = local_monday tz d"
    using ws assms(2,3) by (rule getWeekStart_local)
  have "t = UTC tz (local_monday tz d + 6 * msPerDay)"
    using TimeClip_Some [OF t] by (simp add: lws)
  then have "Day (LocalTime tz t) = Day (local_monday tz d + 6 * msPerDay)"
    using assms(4) by (simp add: keeps_day_def)
  also have "\<dots> = k + 6"
    using Day_mult(1) [of "k + 6"] by (simp add: m algebra_simps)
  finally have "we = UTC tz (local_monday tz d + 6 * msPerDay + MakeTime 23 59 59 999)"
    using TimeClip_Some [OF we] by (simp add: m algebra_simps)
  then show ?thesis
    using assms(5) by (simp add: not_skipped_def)
qed

text \<open>
  With a fixed offset the week start and the week end are the Monday and the Sunday of
  the spec's contract whenever these are in the range of \<open>Date\<close>, and an Invalid Date
  otherwise.
\<close>

lemma monday_time_of_day_le:
  "local_monday tz d + TimeWithinDay (LocalTime tz d) \<le> LocalTime tz d"
proof -
  have "local_monday tz d \<le> Day (LocalTime tz d) * msPerDay"
    using days_since_monday_range(1) [of "WeekDay (LocalTime tz d)"]
    by (simp add: local_monday_def msPerDay_def)
  then show ?thesis
    using Day_TimeWithinDay [of "LocalTime tz d"] by simp
qed

lemma getWeekStart_fixed:
  assumes "\<bar>d\<bar> \<le> maxTime"
  shows "Utils_getWeekStart (fixedOffset off) (Some d) =
     (if - maxTime \<le> local_monday (fixedOffset off) d - off
      then Some (local_monday (fixedOffset off) d - off) else None)"
proof -
  let ?tz = "fixedOffset off"
  let ?m = "local_monday ?tz d"
  let ?r = "TimeWithinDay (LocalTime ?tz d)"
  obtain k where m: "?m = k * msPerDay"
    unfolding local_monday_def by blast
  have day: "Day (?m + ?r) * msPerDay = ?m"
    unfolding m using Day_plus_time(1) [OF TimeWithinDay_range, of k "LocalTime ?tz d"] by simp
  have upper: "?m + ?r - off \<le> maxTime"
    using monday_time_of_day_le [of ?tz d] assms by (simp add: LocalTime_fixed)
  have lower: "?m - off \<le> ?m + ?r - off"
    using TimeWithinDay_range(1) [of "LocalTime ?tz d"] by simp
  show ?thesis
  proof (cases "- maxTime \<le> ?m + ?r - off")
    case True
    then have "TimeClip (?m + ?r - off) = Some (?m + ?r - off)"
      using upper by (simp add: TimeClip_def)
    moreover have "Day (?m + TimeWithinDay (d + off)) * msPerDay = ?m"
      using day by (simp add: LocalTime_fixed)
    ultimately have "Utils_getWeekStart ?tz (Some d) = TimeClip (?m - off)"
      by (simp add: getWeekStart_unfold UTC_fixed LocalTime_fixed)
    moreover have "?m - off \<le> maxTime"
      using upper lower by linarith
    ultimately show ?thesis
      by (simp add: TimeClip_def abs_le_iff)
  next
    case False
    then have "TimeClip (?m + ?r - off) = None"
      by (simp add: TimeClip_def)
    then have "Utils_getWeekStart ?tz (Some d) = None"
      by (simp add: getWeekStart_unfold UTC_fixed)
    then show ?thesis
      using False lower by simp
  qed
qed

lemma getWeekEnd_fixed:
  assumes "\<bar>d\<bar> \<le> maxTime"
  shows "Utils_getWeekEnd (fixedOffset off) (Some d) =
     (if - maxTime \<le> local_monday (fixedOffset off) d - off \<and>
         local_monday (fixedOffset off) d + 6 * msPerDay + MakeTime 23 59 59 999 - off \<le> maxTime
      then Some (local_monday (fixedOffset off) d + 6 * msPerDay + MakeTime 23 59 59 999 - off)
      else None)"
proof -
  let ?tz = "fixedOffset off"
  let ?m = "local_monday ?tz d"
  obtain k where m: "?m = k * msPerDay"
    unfolding local_monday_def by blast
  have day: "Day (?m + 6 * msPerDay) = k + 6"
    using Day_mult(1) [of "k + 6"] by (simp add: m algebra_simps)
  have t: "0 \<le> MakeTime 23 59 59 999" "0 < msPerDay"
    by (simp_all add: MakeTime_def msPerDay_def)
  show ?thesis
  proof (cases "- maxTime \<le> ?m - off")
    case False
    then show ?thesis
      using assms by (simp add: getWeekEnd_unfold getWeekStart_fixed)
  next
    case True
    then have ws: "Utils_getWeekStart ?tz (Some d) = Some (?m - off)"
      using assms by (simp add: getWeekStart_fixed)
    show ?thesis
    proof (cases "?m + 6 * msPerDay - off \<le> maxTime")
      case False
      then have "TimeClip (?m + 6 * msPerDay - off) = None"
        by (simp add: TimeClip_def)
      then have "Utils_getWeekEnd ?tz (Some d) = None"
        by (simp add: getWeekEnd_unfold ws UTC_fixed LocalTime_fixed)
      then show ?thesis
        using False t by simp
    next
      case le: True
      then have "TimeClip (?m + 6 * msPerDay - off) = Some (?m + 6 * msPerDay - off)"
        using True t by (simp add: TimeClip_def)
      then have "Utils_getWeekEnd ?tz (Some d) =
          TimeClip (?m + 6 * msPerDay + MakeTime 23 59 59 999 - off)"
        using day by (simp add: getWeekEnd_unfold ws UTC_fixed LocalTime_fixed m algebra_simps)
      moreover have "- maxTime \<le> ?m + 6 * msPerDay + MakeTime 23 59 59 999 - off"
        using True t by linarith
      ultimately show ?thesis
        using True by (simp add: TimeClip_def abs_le_iff)
    qed
  qed
qed

lemma tehran_next_week:
  "Utils_getWeekStart tehran_2021 (Some 1617179400000) = Some 1616959800000"
  "Utils_getWeekEnd tehran_2021 (Some 1617179400000) = Some 1617564599999"
  "local_monday tehran_2021 1617179400000 = 1616976000000"
  "TimeWithinDay (LocalTime tehran_2021 1617179400000) = 46800000"
  "keeps_day tehran_2021 1617022800000"
  "not_skipped tehran_2021 1616976000000"
  "keeps_day tehran_2021 1617494400000"
  "not_skipped tehran_2021 1617580799999"
  "LocalTime tehran_2021 1616959800000 = 1616976000000"
  "LocalTime tehran_2021 1617564599999 = 1617580799999"
  by (simp_all add: date_defs zone_defs Let_def)

lemma fixed_sample_week:
  "local_monday (fixedOffset 3600000) 1672574400000 = 1672012800000"
  by (simp add: date_defs zone_defs)

text \<open>
  Claim C5, as amended. For every date, valid or not, and every zone, \<open>ApiService.getWeekStart\<close> and
  \<open>Utils.getWeekStart\<close> give the same result. The Monday of the week of \<open>d\<close> at
  00:00:00.000 local time, \<open>local_monday\<close>, is a Monday, has the time of day zero, and is at
  most the local time of \<open>d\<close> and less than 7 days before it. When the week start of \<open>d\<close>
  is a valid date and the zone skips neither that Monday's midnight nor the local time
  the date is moved to on the way (the Monday at the time of day of \<open>d\<close>), the week start
  is that Monday at 00:00:00.000 local time; when also the Sunday 6 days later and its
  last millisecond are not skipped, a valid week end is that Sunday at 23:59:59.999
  local time. With a fixed offset from UTC nothing is skipped: for a valid \<open>d\<close> the week
  start is that Monday at 00:00:00.000 and the week end that Monday plus 6 days at
  23:59:59.999 when these are within the range of \<open>Date\<close>, and an Invalid Date when
  they are not.
\<close>

theorem week_start_shared_and_monday:
  "ApiService_getWeekStart tz date = Utils_getWeekStart tz date \<and>
   WeekDay (local_monday tz d) = 1 \<and>
   TimeWithinDay (local_monday tz d) = 0 \<and>
   local_monday tz d \<le> LocalTime tz d \<and>
   LocalTime tz d < local_monday tz d + 7 * msPerDay \<and>
   (Utils_getWeekStart tz (Some d) = Some ws \<and>
    keeps_day tz (local_monday tz d + TimeWithinDay (LocalTime tz d)) \<and>
    not_skipped tz (local_monday tz d) \<longrightarrow>
      LocalTime tz ws = local_monday tz d) \<and>
   (Utils_getWeekEnd tz (Some d) = Some we \<and>
    keeps_day tz (local_monday tz d + TimeWithinDay (LocalTime tz d)) \<and>
    not_skipped tz (local_monday tz d) \<and>
    keeps_day tz (local_monday tz d + 6 * msPerDay) \<and>
    not_skipped tz (local_monday tz d + 6 * msPerDay + MakeTime 23 59 59 999) \<longrightarrow>
      LocalTime tz we = local_monday tz d + 6 * msPerDay + MakeTime 23 59 59 999) \<and>
   (\<bar>d\<bar> \<le> maxTime \<longrightarrow>
      Utils_getWeekStart (fixedOffset off) (Some d) =
        (if - maxTime \<le> local_monday (fixedOffset off) d - off
         then Some (local_monday (fixedOffset off) d - off) else None) \<and>
      Utils_getWeekEnd (fixedOffset off) (Some d) =
        (if - maxTime \<le> local_monday (fixedOffset off) d - off \<and>
            local_monday (fixedOffset off) d + 6 * msPerDay + MakeTime 23 59 59 999 - off
              \<le> maxTime
         then Some (local_monday (fixedOffset off) d + 6 * msPerDay + MakeTime 23 59 59 999 - off)
         else None))"
proof (intro conjI impI)
  show "ApiService_getWeekStart tz date = Utils_getWeekStart tz date"
    by (rule getWeekStart_same)
  show "WeekDay (local_monday tz d) = 1" "TimeWithinDay (local_monday tz d) = 0"
    "local_monday tz d \<le> LocalTime tz d" "LocalTime tz d < local_monday tz d + 7 * msPerDay"
    by (rule local_monday_facts)+
  show "LocalTime tz ws = local_monday tz d"
    if "Utils_getWeekStart tz (Some d) = Some ws \<and>
      keeps_day tz (local_monday tz d + TimeWithinDay (LocalTime tz d)) \<and>
      not_skipped tz (local_monday tz d)"
    using that by (intro getWeekStart_local) simp_all
  show "LocalTime tz we = local_monday tz d + 6 * msPerDay + MakeTime 23 59 59 999"
    if "Utils_getWeekEnd tz (Some d) = Some we \<and>
      keeps_day tz (local_monday tz d + TimeWithinDay (LocalTime tz d)) \<and>
      not_skipped tz (local_monday tz d) \<and>
      keeps_day tz (local_monday tz d + 6 * msPerDay) \<and>
      not_skipped tz (local_monday tz d + 6 * msPerDay + MakeTime 23 59 59 999)"
    using that by (intro getWeekEnd_local) simp_all
  assume "\<bar>d\<bar> \<le> maxTime"
  then show "Utils_getWeekStart (fixedOffset off) (Some d) =
        (if - maxTime \<le> local_monday (fixedOffset off) d - off
         then Some (local_monday (fixedOffset off) d - off) else None)"
    and "Utils_getWeekEnd (fixedOffset off) (Some d) =
        (if - maxTime \<le> local_monday (fixedOffset off) d - off \<and>
            local_monday (fixedOffset off) d + 6 * msPerDay + MakeTime 23 59 59 999 - off
              \<le> maxTime
         then Some (local_monday (fixedOffset off) d + 6 * msPerDay + MakeTime 23 59 59 999 - off)
         else None)"
    by (rule getWeekStart_fixed getWeekEnd_fixed)+
qed

theorem week_start_shared_and_monday_witness:
  "Utils_getWeekStart tehran_2021 (Some 1617179400000) = Some 1616959800000 \<and>
   Utils_getWeekEnd tehran_2021 (Some 1617179400000) = Some 1617564599999 \<and>
   keeps_day tehran_2021
     (local_monday tehran_2021 1617179400000 + TimeWithinDay (LocalTime tehran_2021 1617179400000)) \<and>
   not_skipped tehran_2021 (local_monday tehran_2021 1617179400000) \<and>
   keeps_day tehran_2021 (local_monday tehran_2021 1617179400000 + 6 * msPerDay) \<and>
   not_skipped tehran_2021
     (local_monday tehran_2021 1617179400000 + 6 * msPerDay + MakeTime 23 59 59 999) \<and>
   LocalTime tehran_2021 1616959800000 = 1616976000000 \<and>
   WeekDay 1616976000000 = 1 \<and> TimeWithinDay 1616976000000 = 0 \<and>
   LocalTime tehran_2021 1617564599999 = 1616976000000 + 6 * msPerDay + MakeTime 23 59 59 999 \<and>
   \<bar>1672574400000\<bar> \<le> maxTime \<and>
   Utils_getWeekStart (fixedOffset 3600000) (Some 1672574400000) = Some 1672009200000 \<and>
   Utils_getWeekEnd (fixedOffset 3600000) (Some 1672574400000) = Some 1672613999999 \<and>
   ApiService_getWeekStart (fixedOffset 3600000) (Some 1672574400000) = Some 1672009200000"
proof -
  note zone = week_start_shared_and_monday
      [where tz = tehran_2021 and date = "Some 1617179400000" and d = 1617179400000
        and ws = 1616959800000 and we = 1617564599999 and off = 0]
  note fixed = week_start_shared_and_monday
      [where tz = "fixedOffset 3600000" and date = "Some 1672574400000" and d = 1672574400000
        and ws = 0 and we = 0 and off = 3600000]
  have "LocalTime tehran_2021 1616959800000 = local_monday tehran_2021 1617179400000"
    and "LocalTime tehran_2021 1617564599999 =
      local_monday tehran_2021 1617179400000 + 6 * msPerDay + MakeTime 23 59 59 999"
    using zone by (simp_all add: tehran_next_week msPerDay_def MakeTime_def)
  moreover have "WeekDay (local_monday tehran_2021 1617179400000) = 1"
    and "TimeWithinDay (local_monday tehran_2021 1617179400000) = 0"
    using zone by simp_all
  moreover have "\<bar>1672574400000\<bar> \<le> maxTime"
    by (simp add: maxTime_def)
  moreover from this
  have "Utils_getWeekStart (fixedOffset 3600000) (Some 1672574400000) = Some 1672009200000"
    and "Utils_getWeekEnd (fixedOffset 3600000) (Some 1672574400000) = Some 1672613999999"
    and "ApiService_getWeekStart (fixedOffset 3600000) (Some 1672574400000) = Some 1672009200000"
    using fixed by (simp_all add: fixed_sample_week maxTime_def msPerDay_def MakeTime_def)
  ultimately show ?thesis
    by (simp add: tehran_next_week msPerDay_def MakeTime_def)
qed

text \<open>
  In Tehran the midnight of Monday 22 March 2021 was skipped: the week start of
  Wednesday 24 March 2021, 13:00 local time, is that Monday at 01:00:00.000 local time, not
  at 00:00:00.000. At the lower end of the range of \<open>Date\<close> the week start is an Invalid
  Date, and so is the week end at the upper end.
\<close>

theorem week_start_shared_and_monday_counterexample:
  "Utils_getWeekStart tehran_2021 (Some 1616574600000) = Some 1616358600000 \<and>
   WeekDay (LocalTime tehran_2021 1616358600000) = 1 \<and>
   TimeWithinDay (LocalTime tehran_2021 1616358600000) = 3600000 \<and>
   LocalTime tehran_2021 1616358600000 \<noteq> local_monday tehran_2021 1616574600000 \<and>
   Utils_getWeekStart (fixedOffset 0) (Some (- 8640000000000000)) = None \<and>
   Utils_getWeekEnd (fixedOffset 0) (Some 8640000000000000) = None"
  by (simp add: date_defs zone_defs Let_def)

section \<open>Traces\<close>

lemma timeouts_append: "timeouts (xs @ ys) = timeouts xs @ timeouts ys"
  by (induction xs rule: timeouts.induct) simp_all

lemma batches_append: "batches (xs @ ys) = batches xs @ batches ys"
  by (induction xs rule: batches.induct) simp_all

lemma sends_append: "sends (xs @ ys) = sends xs @ sends ys"
  by (induction xs rule: sends.induct) simp_all

lemma warnings_append: "warnings (xs @ ys) = warnings xs @ warnings ys"
  by (induction xs rule: warnings.induct) simp_all

lemma lifecycle_append:
  "lifecycle cur (xs @ ys) =
     (case lifecycle cur xs of None \<Rightarrow> None | Some c \<Rightarrow> lifecycle c ys)"
  by (induction cur xs rule: lifecycle.induct) (auto split: option.splits)

section \<open>The offline warning\<close>

lemma trace_maybeTrigger:
  "trace (maybeTriggerOfflineWarning n st) =
     trace st @ (if n \<in> {10, 50, 100, 500} then [ShowWarningMessage (StoredOffline n)] else [])"
  by (simp add: maybeTriggerOfflineWarning_def thresholds_def emit_def)

lemma maybeTrigger_fields:
  "offlineSessions (maybeTriggerOfflineWarning n st) = offlineSessions st"
  "activeSession (maybeTriggerOfflineWarning n st) = activeSession st"
  by (simp_all add: maybeTriggerOfflineWarning_def emit_def)

text \<open>
  Claim C8. When \<open>addOfflineSession\<close> stores a session, the session is appended to the
  queue, and the offline warning is shown exactly when the new count is one of 10, 50,
  100, 500; it then prints that count. From 9 to 10 it is shown, from 10 to 11 it is
  not.
\<close>

theorem offline_warning_exact_match:
  "update_ok e \<Longrightarrow>
     offlineSessions (addOfflineSession e s st) =
       offlineSessions st @
         [\<lparr>session_id = session_id s, language = language s, startTime = startTime s,
           endTime = endTime s, duration = duration s\<rparr>] \<and>
     warnings (trace (addOfflineSession e s st)) =
       warnings (trace st) @
         (if getOfflineSessionCount (addOfflineSession e s st) \<in> {10, 50, 100, 500}
          then [getOfflineSessionCount (addOfflineSession e s st)] else [])"
  by (simp add: addOfflineSession_def getOfflineSessions_def getOfflineSessionCount_def
      Let_def trace_maybeTrigger maybeTrigger_fields warnings_append)

theorem offline_warning_exact_match_witness:
  "update_ok (sample_env 0 False) \<and>
   getOfflineSessionCount (queued 9) = 9 \<and>
   getOfflineSessionCount (addOfflineSession (sample_env 0 False) sample_session (queued 9)) = 10 \<and>
   warnings (trace (addOfflineSession (sample_env 0 False) sample_session (queued 9))) = [10] \<and>
   getOfflineSessionCount (queued 10) = 10 \<and>
   getOfflineSessionCount (addOfflineSession (sample_env 0 False) sample_session (queued 10)) = 11 \<and>
   warnings (trace (addOfflineSession (sample_env 0 False) sample_session (queued 10))) = []"
proof -
  have ok: "update_ok (sample_env 0 False)"
    by (simp add: sample_env_def)
  have n: "getOfflineSessionCount (queued 9) = 9" "getOfflineSessionCount (queued 10) = 10"
    by (simp_all add: getOfflineSessionCount_def queued_def)
  have t: "trace (queued 9) = []" "trace (queued 10) = []"
    "length (offlineSessions (queued 9)) = 9" "length (offlineSessions (queued 10)) = 10"
    by (simp_all add: queued_def)
  show ?thesis
    using ok n
      offline_warning_exact_match [OF ok, of sample_session "queued 9"]
      offline_warning_exact_match [OF ok, of sample_session "queued 10"]
    by (simp add: getOfflineSessionCount_def t)
qed

section \<open>Closing a session\<close>

lemma saveSession_sends:
  "endTime s = Some en \<Longrightarrow>
     sends (trace (saveSession e s st)) = sends (trace st) @ [(sessionData_of s, sendSession_ok e)]"
  by (simp add: saveSession_def sendSession_def queue_defs sessionData_of_def Let_def
      sends_append)

lemma saveSession_queue:
  "endTime s = Some en \<Longrightarrow>
     offlineSessions (saveSession e s st) =
       (if sendSession_ok e \<or> \<not> update_ok e then offlineSessions st
        else offlineSessions st @ [stored_of s])"
  by (simp add: saveSession_def sendSession_def queue_defs stored_of_def Let_def)

lemma saveSession_lifecycle:
  "lifecycle c (trace (saveSession e s st)) = lifecycle c (trace st)"
  by (simp add: saveSession_def sendSession_def queue_defs Let_def lifecycle_append
      split: option.splits)

lemma endSession_unfold:
  "activeSession st = Some a \<Longrightarrow>
     endSession e st =
       emit (SessionClosed (stamp (now e) a))
         ((if minSessionDuration (cfg e) \<le> (now e - startTime a) div 1000
           then saveSession e (stamp (now e) a) st else st)\<lparr>activeSession := None\<rparr>)"
  by (simp add: endSession_def stamp_def Let_def)

lemma endSession_closed_marker:
  "activeSession st = Some a \<Longrightarrow>
     trace (endSession e st) =
       trace (if minSessionDuration (cfg e) \<le> (now e - startTime a) div 1000
              then saveSession e (stamp (now e) a) st else st) @
       [SessionClosed (stamp (now e) a)]"
  by (simp add: endSession_unfold emit_def)

lemma endSession_below_threshold:
  "activeSession st = Some a \<Longrightarrow> (now e - startTime a) div 1000 < minSessionDuration (cfg e) \<Longrightarrow>
     endSession e st = st\<lparr>activeSession := None,
        trace := trace st @ [SessionClosed (stamp (now e) a)]\<rparr>"
  by (simp add: endSession_unfold emit_def)

text \<open>
  Claim C2. \<open>endSession\<close> stamps the open session with the end time \<open>now\<close> and the
  duration \<open>floor((now - startTime) / 1000)\<close>, which is not negative when \<open>now\<close> is not
  before the start. When that duration is below \<open>minSessionDuration\<close>, nothing else
  happens: no request is made and the queue is unchanged.
\<close>

theorem endSession_duration_and_threshold:
  "activeSession st = Some a \<Longrightarrow>
     last (trace (endSession e st)) =
       SessionClosed (a\<lparr>endTime := Some (now e), duration := (now e - startTime a) div 1000\<rparr>) \<and>
     (startTime a \<le> now e \<longrightarrow> 0 \<le> (now e - startTime a) div 1000) \<and>
     ((now e - startTime a) div 1000 < minSessionDuration (cfg e) \<longrightarrow>
        endSession e st =
          st\<lparr>activeSession := None,
             trace := trace st @
               [SessionClosed (a\<lparr>endTime := Some (now e),
                                  duration := (now e - startTime a) div 1000\<rparr>)]\<rparr> \<and>
        sends (trace (endSession e st)) = sends (trace st) \<and>
        offlineSessions (endSession e st) = offlineSessions st)"
proof (intro conjI impI)
  assume a: "activeSession st = Some a"
  show "last (trace (endSession e st)) =
       SessionClosed (a\<lparr>endTime := Some (now e), duration := (now e - startTime a) div 1000\<rparr>)"
    using a by (simp add: endSession_closed_marker stamp_def)
  show "0 \<le> (now e - startTime a) div 1000" if "startTime a \<le> now e"
    using that by (simp add: pos_imp_zdiv_nonneg_iff)
  assume low: "(now e - startTime a) div 1000 < minSessionDuration (cfg e)"
  show eq: "endSession e st =
          st\<lparr>activeSession := None,
             trace := trace st @
               [SessionClosed (a\<lparr>endTime := Some (now e),
                                  duration := (now e - startTime a) div 1000\<rparr>)]\<rparr>"
    using a low by (simp add: endSession_below_threshold stamp_def)
  show "sends (trace (endSession e st)) = sends (trace st)"
    by (simp add: eq sends_append)
  show "offlineSessions (endSession e st) = offlineSessions st"
    by (simp add: eq)
qed

theorem endSession_duration_and_threshold_witness:
  "activeSession tracking = Some sample_session \<and>
   startTime sample_session \<le> now (sample_env 3500 True) \<and>
   (now (sample_env 3500 True) - startTime sample_session) div 1000 = 3 \<and>
   minSessionDuration (cfg (sample_env 3500 True)) = 5 \<and>
   last (trace (endSession (sample_env 3500 True) tracking)) =
     SessionClosed (sample_session\<lparr>endTime := Some 3500, duration := 3\<rparr>) \<and>
   sends (trace (endSession (sample_env 3500 True) tracking)) = [] \<and>
   offlineSessions (endSession (sample_env 3500 True) tracking) = []"
proof -
  have a: "activeSession tracking = Some sample_session"
    by (simp add: tracking_def)
  show ?thesis
    using a endSession_duration_and_threshold [OF a, of "sample_env 3500 True"]
    by (simp add: sample_defs)
qed

lemma div_1000_gap:
  fixes x y thr :: int
  assumes "thr * 1000 < y - x"
  shows "x div 1000 + thr \<le> y div 1000"
proof -
  have "x div 1000 + thr = (x + thr * 1000) div 1000"
    by simp
  also have "\<dots> \<le> y div 1000"
    using assms by (intro zdiv_mono1) simp_all
  finally show ?thesis .
qed

text \<open>
  Claim C9. When the idle check finds the last activity more than the threshold ago, it
  closes the open session with the duration \<open>floor((now - startTime) / 1000)\<close>, \<open>now\<close>
  being the time of the check: the duration is at least the seconds up to the last
  activity plus the threshold, and it is the duration sent when the session is long
  enough to be saved.
\<close>

theorem idle_close_counts_idle_gap:
  "activeSession st = Some a \<Longrightarrow> lastActivityTime st = Some l \<Longrightarrow>
   idleThresholdSeconds * 1000 < now e - l \<Longrightarrow>
     activeSession (checkActivity e idleThresholdSeconds st) = None \<and>
     last (trace (checkActivity e idleThresholdSeconds st)) =
       SessionClosed (a\<lparr>endTime := Some (now e), duration := (now e - startTime a) div 1000\<rparr>) \<and>
     (l - startTime a) div 1000 + idleThresholdSeconds \<le> (now e - startTime a) div 1000 \<and>
     (minSessionDuration (cfg e) \<le> (now e - startTime a) div 1000 \<longrightarrow>
        sends (trace (checkActivity e idleThresholdSeconds st)) =
          sends (trace st) @
            [(\<lparr>language_id = lang_id (language a), start_time = startTime a,
               end_time = Some (now e), duration_sec = (now e - startTime a) div 1000,
               project_name = None, file_path = None\<rparr>, sendSession_ok e)])"
proof (intro conjI impI)
  assume a: "activeSession st = Some a" and l: "lastActivityTime st = Some l"
    and idle: "idleThresholdSeconds * 1000 < now e - l"
  have eq: "checkActivity e idleThresholdSeconds st = endSession e st"
    using a l idle by (simp add: checkActivity_def)
  show "activeSession (checkActivity e idleThresholdSeconds st) = None"
    using a by (simp add: eq endSession_unfold emit_def)
  show "last (trace (checkActivity e idleThresholdSeconds st)) =
       SessionClosed (a\<lparr>endTime := Some (now e), duration := (now e - startTime a) div 1000\<rparr>)"
    using a by (simp add: eq endSession_closed_marker stamp_def)
  show "(l - startTime a) div 1000 + idleThresholdSeconds \<le> (now e - startTime a) div 1000"
    using idle by (intro div_1000_gap) simp
  assume "minSessionDuration (cfg e) \<le> (now e - startTime a) div 1000"
  then show "sends (trace (checkActivity e idleThresholdSeconds st)) =
          sends (trace st) @
            [(\<lparr>language_id = lang_id (language a), start_time = startTime a,
               end_time = Some (now e), duration_sec = (now e - startTime a) div 1000,
               project_name = None, file_path = None\<rparr>, sendSession_ok e)]"
    using a
    by (simp add: eq endSession_closed_marker sends_append
        saveSession_sends [where en = "now e"] stamp_def sessionData_of_def)
qed

theorem idle_close_counts_idle_gap_witness:
  "activeSession tracking = Some sample_session \<and>
   lastActivityTime tracking = Some 0 \<and>
   120 * 1000 < now (sample_env 130000 True) - 0 \<and>
   last (trace (checkActivity (sample_env 130000 True) 120 tracking)) =
     SessionClosed (sample_session\<lparr>endTime := Some 130000, duration := 130\<rparr>) \<and>
   sends (trace (checkActivity (sample_env 130000 True) 120 tracking)) =
     [(\<lparr>language_id = 3, start_time = 0, end_time = Some 130000, duration_sec = 130,
        project_name = None, file_path = None\<rparr>, True)]"
proof -
  have a: "activeSession tracking = Some sample_session"
    and l: "lastActivityTime tracking = Some 0"
    by (simp_all add: tracking_def)
  have idle: "120 * 1000 < now (sample_env 130000 True) - 0"
    by (simp add: sample_env_def)
  show ?thesis
    using a l idle idle_close_counts_idle_gap [OF a l idle]
    by (simp add: sample_defs)
qed

text \<open>
  Claim C7. Closing a session whose duration reaches \<open>minSessionDuration\<close> calls
  \<open>apiService.sendSession\<close> exactly once. When the request resolves the queue is
  unchanged; when it rejects the session is appended once to the queue, provided the
  store accepts the update.
\<close>

theorem closed_session_sent_or_queued:
  "activeSession st = Some a \<Longrightarrow>
   minSessionDuration (cfg e) \<le> (now e - startTime a) div 1000 \<Longrightarrow>
     sends (trace (endSession e st)) =
       sends (trace st) @
         [(\<lparr>language_id = lang_id (language a), start_time = startTime a,
            end_time = Some (now e), duration_sec = (now e - startTime a) div 1000,
            project_name = None, file_path = None\<rparr>, sendSession_ok e)] \<and>
     offlineSessions (endSession e st) =
       (if sendSession_ok e then offlineSessions st
        else if update_ok e then
          offlineSessions st @
            [\<lparr>session_id = session_id a, language = language a, startTime = startTime a,
              endTime = Some (now e), duration = (now e - startTime a) div 1000\<rparr>]
        else offlineSessions st)"
  by (simp add: endSession_unfold emit_def sends_append
      saveSession_sends [where en = "now e"] saveSession_queue [where en = "now e"]
      stamp_def sessionData_of_def stored_of_def)

theorem closed_session_sent_or_queued_witness:
  "activeSession tracking = Some sample_session \<and>
   minSessionDuration (cfg (sample_env 60000 False)) \<le>
     (now (sample_env 60000 False) - startTime sample_session) div 1000 \<and>
   sends (trace (endSession (sample_env 60000 False) tracking)) =
     [(\<lparr>language_id = 3, start_time = 0, end_time = Some 60000, duration_sec = 60,
        project_name = None, file_path = None\<rparr>, False)] \<and>
   offlineSessions (endSession (sample_env 60000 False) tracking) =
     [\<lparr>session_id = ''id'', language = python, startTime = 0, endTime = Some 60000,
       duration = 60\<rparr>] \<and>
   sends (trace (endSession (sample_env 60000 True) tracking)) =
     [(\<lparr>language_id = 3, start_time = 0, end_time = Some 60000, duration_sec = 60,
        project_name = None, file_path = None\<rparr>, True)] \<and>
   offlineSessions (endSession (sample_env 60000 True) tracking) = []"
proof -
  have a: "activeSession tracking = Some sample_session"
    by (simp add: tracking_def)
  have d: "minSessionDuration (cfg (sample_env 60000 ok)) \<le>
     (now (sample_env 60000 ok) - startTime sample_session) div 1000" for ok
    by (simp add: sample_defs)
  show ?thesis
    using a d [of False]
      closed_session_sent_or_queued [OF a d [of False]]
      closed_session_sent_or_queued [OF a d [of True]]
    by (simp add: sample_defs)
qed

section \<open>Draining the queue\<close>

lemma adaptiveBatchSize_pos: "0 < uploadBatchSize c \<Longrightarrow> 0 < adaptiveBatchSize c n"
  by (simp add: adaptiveBatchSize_def Let_def)

lemma slice0_pos: "0 < n \<Longrightarrow> slice0 xs n = take (nat n) xs"
  by (simp add: slice0_def Let_def min_def)

lemma failed_drain_queue:
  "\<not> sendBatchSessions_ok e \<Longrightarrow> offlineSessions (sendOfflineSessions e st) = offlineSessions st"
  by (simp add: sendOfflineSessions_def Let_def emit_def)

lemma drain_attempt:
  assumes "offlineSessions st \<noteq> []" "\<not> pendingUpload st" "apiKey (cfg e) \<noteq> []"
    "0 < uploadBatchSize (cfg e)"
  shows "batches (trace (sendOfflineSessions e st)) =
           batches (trace st) @ [batch_of (cfg e) (offlineSessions st)]"
    and "pendingUpload (sendOfflineSessions e st) = False"
proof -
  have pos: "0 < adaptiveBatchSize (cfg e) (int (length (offlineSessions st)))"
    using assms(4) by (rule adaptiveBatchSize_pos)
  have batch: "getOfflineSessions (Some (adaptiveBatchSize (cfg e) (int (length (offlineSessions st))))) st
      = take (nat (adaptiveBatchSize (cfg e) (int (length (offlineSessions st))))) (offlineSessions st)"
    using pos by (simp add: getOfflineSessions_def slice0_pos)
  have ne: "take (nat (adaptiveBatchSize (cfg e) (int (length (offlineSessions st))))) (offlineSessions st) \<noteq> []"
    using pos assms(1) by simp
  show "batches (trace (sendOfflineSessions e st)) =
           batches (trace st) @ [batch_of (cfg e) (offlineSessions st)]"
    using assms(1-3) ne pos
    by (simp add: sendOfflineSessions_def hasOfflineSessions_def getOfflineSessionCount_def
        getOfflineSessions_def slice0_pos removeOfflineSessions_def
        Let_def emit_def batches_append batch_of_def)
  show "pendingUpload (sendOfflineSessions e st) = False"
    using assms(2)
    by (simp add: sendOfflineSessions_def Let_def emit_def)
qed

lemma drain_failure_step:
  assumes "offlineSessions st \<noteq> []" "\<not> pendingUpload st" "drain_fails e"
  shows "uploadRetryCount (sendOfflineSessions e st) =
           (if uploadRetryCount st < 5 then uploadRetryCount st + 1 else 0)"
    and "timeouts (trace (sendOfflineSessions e st)) =
           timeouts (trace st) @
             (if uploadRetryCount st < 5 then [1000 * 2 ^ (uploadRetryCount st + 1)] else [])"
proof -
  have pos: "0 < adaptiveBatchSize (cfg e) (int (length (offlineSessions st)))"
    using assms(3) by (simp add: drain_fails_def adaptiveBatchSize_pos)
  have ne: "take (nat (adaptiveBatchSize (cfg e) (int (length (offlineSessions st))))) (offlineSessions st) \<noteq> []"
    using pos assms(1) by simp
  show "uploadRetryCount (sendOfflineSessions e st) =
           (if uploadRetryCount st < 5 then uploadRetryCount st + 1 else 0)"
    using assms ne pos
    by (simp add: sendOfflineSessions_def hasOfflineSessions_def getOfflineSessionCount_def
        getOfflineSessions_def slice0_pos drain_fails_def Let_def emit_def)
  show "timeouts (trace (sendOfflineSessions e st)) =
           timeouts (trace st) @
             (if uploadRetryCount st < 5 then [1000 * 2 ^ (uploadRetryCount st + 1)] else [])"
    using assms ne pos
    by (simp add: sendOfflineSessions_def hasOfflineSessions_def getOfflineSessionCount_def
        getOfflineSessions_def slice0_pos drain_fails_def Let_def emit_def timeouts_append)
qed

lemma consecutive_failures:
  assumes "offlineSessions st \<noteq> []" "\<not> pendingUpload st" "list_all drain_fails es"
    "uploadRetryCount st + length es \<le> 5"
  shows "uploadRetryCount (fold sendOfflineSessions es st) = uploadRetryCount st + length es \<and>
         timeouts (trace (fold sendOfflineSessions es st)) =
           timeouts (trace st) @
             map (\<lambda>k. 1000 * 2 ^ k) [uploadRetryCount st + 1 ..< uploadRetryCount st + length es + 1] \<and>
         offlineSessions (fold sendOfflineSessions es st) = offlineSessions st \<and>
         \<not> pendingUpload (fold sendOfflineSessions es st)"
  using assms
proof (induction es arbitrary: st)
  case Nil
  then show ?case by simp
next
  case (Cons e es)
  let ?st = "sendOfflineSessions e st"
  have e: "drain_fails e" and es: "list_all drain_fails es"
    using Cons.prems(3) by simp_all
  have lt: "uploadRetryCount st < 5"
    using Cons.prems(4) by simp
  have q: "offlineSessions ?st = offlineSessions st"
    using e by (simp add: failed_drain_queue drain_fails_def)
  have p: "\<not> pendingUpload ?st"
    using drain_attempt(2) [of st e] Cons.prems(1,2) e by (simp add: drain_fails_def)
  have n: "uploadRetryCount ?st = uploadRetryCount st + 1"
    using drain_failure_step(1) [OF Cons.prems(1,2) e] lt by simp
  have t: "timeouts (trace ?st) = timeouts (trace st) @ [1000 * 2 ^ (uploadRetryCount st + 1)]"
    using drain_failure_step(2) [OF Cons.prems(1,2) e] lt by simp
  have IH: "uploadRetryCount (fold sendOfflineSessions es ?st) = uploadRetryCount ?st + length es \<and>
         timeouts (trace (fold sendOfflineSessions es ?st)) =
           timeouts (trace ?st) @
             map (\<lambda>k. 1000 * 2 ^ k) [uploadRetryCount ?st + 1 ..< uploadRetryCount ?st + length es + 1] \<and>
         offlineSessions (fold sendOfflineSessions es ?st) = offlineSessions ?st \<and>
         \<not> pendingUpload (fold sendOfflineSessions es ?st)"
    using Cons.prems(1,4) q p es n by (intro Cons.IH) simp_all
  have "[uploadRetryCount st + 1 ..< uploadRetryCount st + length (e # es) + 1] =
        (uploadRetryCount st + 1) # [uploadRetryCount ?st + 1 ..< uploadRetryCount ?st + length es + 1]"
    by (simp add: n upt_conv_Cons del: upt_Suc)
  with IH show ?case
    by (simp add: n t q del: upt_Suc)
qed

lemma sample_env_fails: "drain_fails (sample_env t False)"
  by (simp add: drain_fails_def sample_env_def sample_config_def)

text \<open>
  Claim C1. A drain whose batch request rejects leaves the queue as it was. When the
  drain reached the request, the batch it sent is the head of the queue, and the next
  drain under the same settings sends the same batch again: \<open>pendingUpload\<close> is cleared,
  so it is not skipped.
\<close>

theorem failed_drain_keeps_queue:
  assumes "\<not> sendBatchSessions_ok e"
  shows "offlineSessions (sendOfflineSessions e st) = offlineSessions st \<and>
         (offlineSessions st \<noteq> [] \<and> \<not> pendingUpload st \<and> apiKey (cfg e) \<noteq> [] \<and>
          0 < uploadBatchSize (cfg e) \<and> cfg e' = cfg e \<longrightarrow>
            batches (trace (sendOfflineSessions e st)) =
              batches (trace st) @
                [map formatSession
                   (take (nat (adaptiveBatchSize (cfg e) (int (length (offlineSessions st)))))
                      (offlineSessions st))] \<and>
            batches (trace (sendOfflineSessions e' (sendOfflineSessions e st))) =
              batches (trace st) @
                [map formatSession
                   (take (nat (adaptiveBatchSize (cfg e) (int (length (offlineSessions st)))))
                      (offlineSessions st)),
                 map formatSession
                   (take (nat (adaptiveBatchSize (cfg e) (int (length (offlineSessions st)))))
                      (offlineSessions st))])"
proof (intro conjI impI)
  show q: "offlineSessions (sendOfflineSessions e st) = offlineSessions st"
    using assms by (rule failed_drain_queue)
  assume h: "offlineSessions st \<noteq> [] \<and> \<not> pendingUpload st \<and> apiKey (cfg e) \<noteq> [] \<and>
          0 < uploadBatchSize (cfg e) \<and> cfg e' = cfg e"
  have first: "batches (trace (sendOfflineSessions e st)) =
      batches (trace st) @ [batch_of (cfg e) (offlineSessions st)]"
    and p: "pendingUpload (sendOfflineSessions e st) = False"
    using drain_attempt [of st e] h by simp_all
  show "batches (trace (sendOfflineSessions e st)) =
              batches (trace st) @
                [map formatSession
                   (take (nat (adaptiveBatchSize (cfg e) (int (length (offlineSessions st)))))
                      (offlineSessions st))]"
    using first by (simp add: batch_of_def)
  have "batches (trace (sendOfflineSessions e' (sendOfflineSessions e st))) =
      batches (trace (sendOfflineSessions e st)) @
        [batch_of (cfg e') (offlineSessions (sendOfflineSessions e st))]"
    using h q p by (intro drain_attempt(1)) simp_all
  then show "batches (trace (sendOfflineSessions e' (sendOfflineSessions e st))) =
              batches (trace st) @
                [map formatSession
                   (take (nat (adaptiveBatchSize (cfg e) (int (length (offlineSessions st)))))
                      (offlineSessions st)),
                 map formatSession
                   (take (nat (adaptiveBatchSize (cfg e) (int (length (offlineSessions st)))))
                      (offlineSessions st))]"
    using h by (simp add: first q batch_of_def)
qed

theorem failed_drain_keeps_queue_witness:
  "\<not> sendBatchSessions_ok (small_batches False) \<and>
   offlineSessions backlog = [stored_at 0, stored_at 60000, stored_at 120000] \<and>
   \<not> pendingUpload backlog \<and> apiKey (cfg (small_batches False)) \<noteq> [] \<and>
   uploadBatchSize (cfg (small_batches False)) = 2 \<and>
   offlineSessions (sendOfflineSessions (small_batches False) backlog) =
     [stored_at 0, stored_at 60000, stored_at 120000] \<and>
   batches (trace (sendOfflineSessions (small_batches False) backlog)) =
     [[formatSession (stored_at 0), formatSession (stored_at 60000)]] \<and>
   batches (trace (sendOfflineSessions (small_batches True)
       (sendOfflineSessions (small_batches False) backlog))) =
     [[formatSession (stored_at 0), formatSession (stored_at 60000)],
      [formatSession (stored_at 0), formatSession (stored_at 60000)]]"
proof -
  have f: "\<not> sendBatchSessions_ok (small_batches False)"
    by (simp add: small_batches_def sample_env_def)
  have q: "offlineSessions backlog = [stored_at 0, stored_at 60000, stored_at 120000]"
    "\<not> pendingUpload backlog" "trace backlog = []"
    by (simp_all add: backlog_def)
  have c: "apiKey (cfg (small_batches False)) \<noteq> []"
    "uploadBatchSize (cfg (small_batches False)) = 2"
    "cfg (small_batches True) = cfg (small_batches False)"
    "adaptiveBatchSize (cfg (small_batches False)) 3 = 2"
    by (simp_all add: small_batches_def sample_env_def sample_config_def adaptiveBatchSize_def)
  show ?thesis
    using f q(1,2) c(1,2)
      failed_drain_keeps_queue [OF f, of backlog "small_batches True"]
    by (simp add: q c)
qed

text \<open>
  Claim C3, as amended. From a retry counter of zero, five failing drains in a row
  schedule the next drain after 2000, 4000, 8000, 16000 and 32000 ms (the counter is
  incremented before the delay \<open>1000 * 2 ^ uploadRetryCount\<close> is computed) and leave the
  counter at 5; the sixth failing drain schedules nothing and resets the counter to
  zero.
\<close>

theorem backoff_delays:
  assumes "uploadRetryCount st = 0" "offlineSessions st \<noteq> []" "\<not> pendingUpload st"
    "list_all drain_fails es" "length es = 5" "drain_fails e"
  shows "timeouts (trace (fold sendOfflineSessions es st)) =
           timeouts (trace st) @ [2000, 4000, 8000, 16000, 32000] \<and>
         uploadRetryCount (fold sendOfflineSessions es st) = 5 \<and>
         timeouts (trace (sendOfflineSessions e (fold sendOfflineSessions es st))) =
           timeouts (trace st) @ [2000, 4000, 8000, 16000, 32000] \<and>
         uploadRetryCount (sendOfflineSessions e (fold sendOfflineSessions es st)) = 0"
proof -
  let ?st = "fold sendOfflineSessions es st"
  have five: "uploadRetryCount ?st = uploadRetryCount st + length es \<and>
         timeouts (trace ?st) =
           timeouts (trace st) @
             map (\<lambda>k. 1000 * 2 ^ k) [uploadRetryCount st + 1 ..< uploadRetryCount st + length es + 1] \<and>
         offlineSessions ?st = offlineSessions st \<and> \<not> pendingUpload ?st"
    using assms by (intro consecutive_failures) simp_all
  have upt: "[Suc 0 ..< 6] = [1, 2, 3, 4, 5]"
    by (simp add: upt_rec)
  have t5: "timeouts (trace ?st) = timeouts (trace st) @ [2000, 4000, 8000, 16000, 32000]"
    using five assms(1,5) by (simp add: upt)
  have n5: "uploadRetryCount ?st = 5"
    using five assms(1,5) by simp
  have q: "offlineSessions ?st \<noteq> []" and p: "\<not> pendingUpload ?st"
    using five assms(2) by simp_all
  show ?thesis
    using drain_failure_step [OF q p assms(6)] t5 n5 by simp
qed

theorem backoff_delays_witness:
  "uploadRetryCount (queued 1) = 0 \<and> offlineSessions (queued 1) \<noteq> [] \<and>
   \<not> pendingUpload (queued 1) \<and> list_all drain_fails (replicate 5 (sample_env 0 False)) \<and>
   timeouts (trace (fold sendOfflineSessions (replicate 5 (sample_env 0 False)) (queued 1))) =
     [2000, 4000, 8000, 16000, 32000] \<and>
   uploadRetryCount (fold sendOfflineSessions (replicate 5 (sample_env 0 False)) (queued 1)) = 5 \<and>
   timeouts (trace (sendOfflineSessions (sample_env 0 False)
     (fold sendOfflineSessions (replicate 5 (sample_env 0 False)) (queued 1)))) =
     [2000, 4000, 8000, 16000, 32000] \<and>
   uploadRetryCount (sendOfflineSessions (sample_env 0 False)
     (fold sendOfflineSessions (replicate 5 (sample_env 0 False)) (queued 1))) = 0"
proof -
  have q: "uploadRetryCount (queued 1) = 0" "offlineSessions (queued 1) \<noteq> []"
    "\<not> pendingUpload (queued 1)" "trace (queued 1) = []"
    by (simp_all add: queued_def)
  have es: "list_all drain_fails (replicate 5 (sample_env 0 False))"
    by (simp add: list_all_iff sample_env_fails)
  have len: "length (replicate 5 (sample_env 0 False)) = 5"
    by simp
  show ?thesis
    using q es backoff_delays [OF q(1-3) es len sample_env_fails [of 0]]
    by simp
qed

text \<open>
  The first failing drain from a counter of zero schedules the next drain after 2000 ms,
  and five failing drains in a row schedule 2000, 4000, 8000, 16000, 32000 ms: the
  delays are not 1000, 2000, 4000, 8000, 16000 ms.
\<close>

theorem backoff_delays_counterexample:
  "timeouts (trace (sendOfflineSessions (sample_env 0 False) (queued 1))) = [2000] \<and>
   timeouts (trace (fold sendOfflineSessions (replicate 5 (sample_env 0 False)) (queued 1))) =
     [2000, 4000, 8000, 16000, 32000] \<and>
   timeouts (trace (fold sendOfflineSessions (replicate 5 (sample_env 0 False)) (queued 1))) \<noteq>
     [1000, 2000, 4000, 8000, 16000]"
proof -
  have q: "offlineSessions (queued 1) \<noteq> []" "\<not> pendingUpload (queued 1)"
    "uploadRetryCount (queued 1) = 0" "trace (queued 1) = []"
    by (simp_all add: queued_def)
  have es: "list_all drain_fails (replicate 5 (sample_env 0 False))"
    by (simp add: list_all_iff sample_env_fails)
  have one: "timeouts (trace (sendOfflineSessions (sample_env 0 False) (queued 1))) = [2000]"
    using drain_failure_step(2) [OF q(1,2) sample_env_fails [of 0]] q(3,4) by simp
  have "timeouts (trace (fold sendOfflineSessions (replicate 5 (sample_env 0 False)) (queued 1))) =
      map (\<lambda>k. 1000 * 2 ^ k) [1 ..< 6]"
    using consecutive_failures [OF q(1,2) es] q(3,4) by simp
  also have "\<dots> = [2000, 4000, 8000, 16000, 32000]"
    by (simp add: upt_rec)
  finally show ?thesis
    using one by simp
qed

section \<open>The life cycle of sessions\<close>

lemma tracked_endSession: "tracked st \<Longrightarrow> tracked (endSession e st)"
proof (cases "activeSession st")
  case None
  assume "tracked st"
  with None show ?thesis by (simp add: endSession_def)
next
  case (Some a)
  assume t: "tracked st"
  have "lifecycle None (trace (if minSessionDuration (cfg e) \<le> (now e - startTime a) div 1000
              then saveSession e (stamp (now e) a) st else st)) = Some (Some a)"
    using t Some by (simp add: tracked_def saveSession_lifecycle)
  then have "lifecycle None (trace (endSession e st)) = Some None"
    using Some by (simp add: endSession_closed_marker lifecycle_append stamp_def)
  moreover have "activeSession (endSession e st) = None"
    using Some by (simp add: endSession_unfold emit_def)
  ultimately show ?thesis
    by (simp add: tracked_def)
qed

lemma endSession_inactive: "activeSession (endSession e st) = None"
  by (cases "activeSession st") (simp_all add: endSession_def Let_def emit_def)

lemma tracked_startSession: "tracked st \<Longrightarrow> tracked (startSession e d st)"
proof -
  assume t: "tracked st"
  let ?st = "if activeSession st \<noteq> None then endSession e st else st"
  have t': "tracked ?st"
    using t by (simp add: tracked_endSession)
  have none: "activeSession ?st = None"
    by (simp add: endSession_inactive)
  from t' none have "lifecycle None (trace ?st) = Some None"
    by (simp add: tracked_def)
  then show ?thesis
    by (simp add: tracked_def startSession_def Let_def emit_def lifecycle_append
        del: if_split_asm cong: if_cong)
qed

lemma tracked_fields [simp]:
  "tracked (st\<lparr>lastActivityTime := x\<rparr>) = tracked st"
  "tracked (st\<lparr>isTracking := b\<rparr>) = tracked st"
  "tracked (st\<lparr>activityCheckInterval := y\<rparr>) = tracked st"
  "tracked (st\<lparr>uploadInterval := z\<rparr>) = tracked st"
  by (simp_all add: tracked_def)

lemma tracked_emit:
  "tracked (emit (ShowInformationMessage n) st) = tracked st"
  "tracked (emit (ShowWarningMessage n) st) = tracked st"
  by (simp_all add: tracked_def emit_def lifecycle_append split: option.splits)

lemma tracked_sendOfflineSessions: "tracked st \<Longrightarrow> tracked (sendOfflineSessions e st)"
  by (simp add: tracked_def sendOfflineSessions_def removeOfflineSessions_def Let_def emit_def
      lifecycle_append split: option.splits)

lemma tracked_checkActivity: "tracked st \<Longrightarrow> tracked (checkActivity e n st)"
  by (simp add: checkActivity_def tracked_endSession split: option.splits)

lemma tracked_onDocumentChange: "tracked st \<Longrightarrow> tracked (onDocumentChange e d st)"
  by (simp add: onDocumentChange_def Let_def tracked_startSession)

lemma tracked_onEditorChange: "tracked st \<Longrightarrow> tracked (onEditorChange e d st)"
  by (simp add: onEditorChange_def Let_def tracked_startSession tracked_endSession
      split: option.splits)

lemma tracked_onWindowStateChange: "tracked st \<Longrightarrow> tracked (onWindowStateChange e f d st)"
  by (simp add: onWindowStateChange_def Let_def tracked_startSession tracked_endSession
      split: option.splits)

lemma tracked_startTracking: "tracked st \<Longrightarrow> tracked (startTracking e d st)"
  by (simp add: startTracking_def Let_def tracked_startSession tracked_emit
      split: option.splits)

lemma tracked_stopTracking: "tracked st \<Longrightarrow> tracked (stopTracking e st)"
  by (simp add: stopTracking_def Let_def tracked_endSession tracked_emit)

lemma tracked_toggleAutoTracking: "tracked st \<Longrightarrow> tracked (toggleAutoTracking e c d st)"
  by (simp add: toggleAutoTracking_def Let_def tracked_startSession tracked_endSession
      tracked_emit split: option.splits)

lemma tracked_step: "tracked st \<Longrightarrow> tracked (step e ev st)"
  by (cases ev)
    (simp_all add: tracked_onDocumentChange tracked_onEditorChange tracked_onWindowStateChange
      tracked_startTracking tracked_stopTracking tracked_toggleAutoTracking
      tracked_checkActivity tracked_sendOfflineSessions split: option.splits)

lemma tracked_run: "tracked st \<Longrightarrow> tracked (run evs st)"
  by (induction evs st rule: run.induct) (simp_all add: tracked_step)

lemma tracked_initial: "tracked initial"
  by (simp add: tracked_def initial_def)

lemma lifecycle_counts:
  "lifecycle cur xs = Some c \<Longrightarrow>
     opens xs + (if cur = None then 0 else 1) = closes xs + (if c = None then 0 else 1)"
  by (induction cur xs arbitrary: c rule: lifecycle.induct)
    (auto split: option.splits if_splits)

lemma lifecycle_prefix:
  assumes "lifecycle cur xs = Some c"
  shows "\<exists>c'. lifecycle cur (take n xs) = Some c'"
proof -
  have "lifecycle cur (take n xs @ drop n xs) = Some c"
    using assms by simp
  then show ?thesis
    unfolding lifecycle_append by (cases "lifecycle cur (take n xs)") simp_all
qed

lemma lifecycle_at_most_one:
  assumes "lifecycle None xs = Some c"
  shows "closes (take n xs) \<le> opens (take n xs) \<and> opens (take n xs) \<le> closes (take n xs) + 1"
proof -
  obtain c' where "lifecycle None (take n xs) = Some c'"
    using lifecycle_prefix [OF assms] by blast
  from lifecycle_counts [OF this] show ?thesis
    by (simp split: if_splits)
qed

text \<open>
  Claim C6. After any sequence of events from the initial state, the trace is a
  well-formed life cycle: a session is opened only when none is open, each close is of
  the open session, and the session left open is \<open>activeSession\<close>. At every point of the
  trace the sessions opened so far are the sessions closed so far and at most one
  more.
\<close>

theorem at_most_one_open_session:
  "lifecycle None (trace (run evs initial)) = Some (activeSession (run evs initial)) \<and>
   (\<forall>n. closes (take n (trace (run evs initial))) \<le> opens (take n (trace (run evs initial))) \<and>
        opens (take n (trace (run evs initial))) \<le> closes (take n (trace (run evs initial))) + 1)"
proof -
  have l: "lifecycle None (trace (run evs initial)) = Some (activeSession (run evs initial))"
    using tracked_run [OF tracked_initial, of evs] by (simp add: tracked_def)
  show ?thesis
    using l lifecycle_at_most_one [OF l] by blast
qed

theorem at_most_one_open_session_witness:
  "lifecycle None (trace (run sample_events initial)) = Some None \<and>
   activeSession (run sample_events initial) = None \<and>
   opens (trace (run sample_events initial)) = 3 \<and>
   closes (trace (run sample_events initial)) = 3 \<and>
   opens (take 5 (trace (run sample_events initial))) = 2 \<and>
   closes (take 5 (trace (run sample_events initial))) = 1"
  using at_most_one_open_session [of sample_events]
  by (simp add: sample_events_def initial_def handler_defs tracker_defs sample_defs)

section \<open>Grouping\<close>

text \<open>
  The loop of \<open>groupSessionsByLanguage\<close> keeps, for every key, the summary of the
  sessions read so far that have this key; it stops with a \<open>RangeError\<close> at the first
  session whose week start is an Invalid Date.
\<close>

lemma groupedD:
  "grouped tz xs m \<Longrightarrow>
     (case map_of m (l, w) of None \<Rightarrow> members tz (l, Some w) xs = []
      | Some g \<Rightarrow> summarises (members tz (l, Some w) xs) (l, w) g)"
  unfolding grouped_def by blast

lemma grouped_distinct: "grouped tz xs m \<Longrightarrow> distinct (map fst m)"
  unfolding grouped_def by blast

lemma grouped_valid: "grouped tz xs m \<Longrightarrow> list_all (\<lambda>s. snd (session_key tz s) \<noteq> None) xs"
  unfolding grouped_def by blast

lemma members_snoc:
  "members tz k (xs @ [x]) = (if session_key tz x = k then members tz k xs @ [x] else members tz k xs)"
  by (simp add: members_def)

lemma groupSession_error:
  "snd (session_key tz x) = None \<Longrightarrow> groupSession tz x m = Inl RangeError"
  by (simp add: groupSession_def session_key_def)

lemma groupSession_result:
  "groupSession tz x m = Inl RangeError \<and> snd (session_key tz x) = None \<or>
   (\<exists>m'. groupSession tz x m = Inr m') \<and> snd (session_key tz x) \<noteq> None"
  by (auto simp: groupSession_def session_key_def Let_def split: option.splits)

lemma groupSession_ok:
  assumes "session_key tz x = (l, Some w)"
  shows "groupSession tz x m =
     Inr (AList.update (l, w)
       (let g = (case map_of m (l, w) of
                   None \<Rightarrow> \<lparr>language_id = l, start_time = w,
                             end_time = end_time x, duration_sec = 0,
                             project_name = Some (or_default (project_name x) ''Unknown''),
                             file_path = Some (or_default (file_path x) [])\<rparr>
                 | Some g \<Rightarrow> g);
            g = g\<lparr>duration_sec := duration_sec g + duration_sec x\<rparr>
        in if new_Date (end_time x) > new_Date (end_time g)
           then g\<lparr>end_time := end_time x\<rparr> else g) m)"
  using assms
  by (auto simp add: groupSession_def session_key_def Let_def split: option.splits)

lemma summarises_first:
  assumes "session_key tz x = (l, Some w)"
  shows "summarises [x] (l, w)
     (\<lparr>language_id = l, start_time = w,
       end_time = end_time x, duration_sec = 0 + duration_sec x,
       project_name = Some (or_default (project_name x) ''Unknown''),
       file_path = Some (or_default (file_path x) [])\<rparr>)"
  by (simp add: summarises_def)

lemma summarises_next:
  assumes "summarises ms k g"
  shows "summarises (ms @ [x]) k
     (if new_Date (end_time x) > new_Date (end_time g)
      then g\<lparr>duration_sec := duration_sec g + duration_sec x, end_time := end_time x\<rparr>
      else g\<lparr>duration_sec := duration_sec g + duration_sec x\<rparr>)"
proof -
  have ne: "ms \<noteq> []" using assms by (simp add: summarises_def)
  then have hd: "hd (ms @ [x]) = hd ms" by simp
  have le: "list_all (\<lambda>s. new_Date (end_time s) \<le> new_Date (end_time g)) ms"
    using assms by (simp add: summarises_def)
  show ?thesis
  proof (cases "new_Date (end_time x) > new_Date (end_time g)")
    case True
    have "list_all (\<lambda>s. new_Date (end_time s) \<le> new_Date (end_time x)) ms"
      using le True by (auto simp: list_all_iff)
    then show ?thesis
      using assms True ne by (simp add: summarises_def hd del: hd_append2)
  next
    case False
    then show ?thesis
      using assms ne by (simp add: summarises_def hd del: hd_append2)
  qed
qed

lemma grouped_step:
  assumes "grouped tz xs m" "groupSession tz x m = Inr m'"
  shows "grouped tz (xs @ [x]) m'"
proof -
  from assms(2) groupSession_result [of tz x m]
  obtain lx wx where key: "session_key tz x = (lx, Some wx)"
    by (cases "session_key tz x") auto
  let ?g = "let g = (case map_of m (lx, wx) of
                   None \<Rightarrow> \<lparr>language_id = lx, start_time = wx,
                             end_time = end_time x, duration_sec = 0,
                             project_name = Some (or_default (project_name x) ''Unknown''),
                             file_path = Some (or_default (file_path x) [])\<rparr>
                 | Some g \<Rightarrow> g);
            g = g\<lparr>duration_sec := duration_sec g + duration_sec x\<rparr>
        in if new_Date (end_time x) > new_Date (end_time g)
           then g\<lparr>end_time := end_time x\<rparr> else g"
  have m': "m' = AList.update (lx, wx) ?g m"
    using assms(2) groupSession_ok [OF key, of m] by simp
  show ?thesis
    unfolding grouped_def
  proof (intro conjI allI)
    show "distinct (map fst m')"
      using grouped_distinct [OF assms(1)] by (simp add: m' distinct_update)
    show "list_all (\<lambda>s. snd (session_key tz s) \<noteq> None) (xs @ [x])"
      using grouped_valid [OF assms(1)] key by simp
    fix l w
    have inv: "case map_of m (l, w) of None \<Rightarrow> members tz (l, Some w) xs = []
            | Some g \<Rightarrow> summarises (members tz (l, Some w) xs) (l, w) g"
      using assms(1) by (rule groupedD)
    show "case map_of m' (l, w) of
          None \<Rightarrow> members tz (l, Some w) (xs @ [x]) = []
        | Some g \<Rightarrow> summarises (members tz (l, Some w) (xs @ [x])) (l, w) g"
    proof (cases "(l, w) = (lx, wx)")
      case False
      then have "session_key tz x \<noteq> (l, Some w)"
        using key by auto
      then have m_eq: "members tz (l, Some w) (xs @ [x]) = members tz (l, Some w) xs"
        by (simp add: members_snoc)
      have map_eq: "map_of m' (l, w) = map_of m (l, w)"
        using False by (auto simp add: m' update_conv')
      show ?thesis
        unfolding map_eq m_eq by (rule inv)
    next
      case True
      then have lw: "l = lx" "w = wx" by simp_all
      have mem: "members tz (l, Some w) (xs @ [x]) = members tz (l, Some w) xs @ [x]"
        using key by (simp add: members_snoc lw)
      have map': "map_of m' (l, w) = Some ?g"
        by (simp add: m' update_conv' lw)
      show ?thesis
      proof (cases "map_of m (lx, wx)")
        case None
        then have "members tz (l, Some w) xs = []"
          using inv by (simp add: lw)
        then show ?thesis
          unfolding map' mem
          using None summarises_first [OF key]
          by (simp add: lw Let_def)
      next
        case (Some g)
        then have "summarises (members tz (l, Some w) xs) (l, w) g"
          using inv by (simp add: lw)
        from summarises_next [OF this, of x] show ?thesis
          unfolding map' mem
          using Some by (simp add: lw Let_def)
      qed
    qed
  qed
qed

lemma groupSessions_append:
  "groupSessions tz (xs @ ys) m =
     (case groupSessions tz xs m of Inl e \<Rightarrow> Inl e | Inr m' \<Rightarrow> groupSessions tz ys m')"
  by (induction xs arbitrary: m) (simp_all split: sum.splits)

lemma grouped_loop: "groupSessions tz xs [] = Inr m \<Longrightarrow> grouped tz xs m"
proof (induction xs arbitrary: m rule: rev_induct)
  case Nil
  then show ?case by (simp add: grouped_def members_def)
next
  case (snoc x xs)
  from snoc.prems obtain m0 where m0: "groupSessions tz xs [] = Inr m0"
    and step: "groupSession tz x m0 = Inr m"
    by (auto simp: groupSessions_append split: sum.splits)
  from snoc.IH [OF m0] step show ?case
    by (rule grouped_step)
qed


lemma grouped_entry:
  assumes "grouped tz xs m" "((l, w), g) \<in> set m"
  shows "summarises (members tz (l, Some w) xs) (l, w) g" "group_key g = (l, Some w)"
proof -
  have "map_of m (l, w) = Some g"
    using grouped_distinct [OF assms(1)] assms(2) by simp
  moreover have "case map_of m (l, w) of None \<Rightarrow> members tz (l, Some w) xs = []
            | Some g \<Rightarrow> summarises (members tz (l, Some w) xs) (l, w) g"
    using assms(1) by (rule groupedD)
  ultimately show s: "summarises (members tz (l, Some w) xs) (l, w) g" by simp
  then show "group_key g = (l, Some w)"
    by (simp add: summarises_def group_key_def)
qed


lemma groupSessionsByLanguage_Inr:
  assumes "groupSessionsByLanguage tz xs = Inr gs"
  shows "\<exists>m. groupSessions tz xs [] = Inr m \<and> gs = map snd m"
  using assms by (auto simp: groupSessionsByLanguage_def split: if_splits sum.splits)

lemma group_summarises:
  assumes "groupSessionsByLanguage tz xs = Inr gs" "g \<in> set gs"
  shows "\<exists>l w. group_key g = (l, Some w) \<and> summarises (members tz (l, Some w) xs) (l, w) g"
proof -
  from groupSessionsByLanguage_Inr [OF assms(1)]
  obtain m where m: "groupSessions tz xs [] = Inr m" and gs: "gs = map snd m"
    by blast
  from assms(2) gs obtain l w where "((l, w), g) \<in> set m"
    by auto
  from grouped_entry [OF grouped_loop [OF m] this] show ?thesis
    by blast
qed





lemma sample_keys:
  "session_key (fixedOffset 0) week_a = (1, Some 1672012800000)"
  "session_key (fixedOffset 0) week_b = (1, Some 1672012800000)"
  "session_key (fixedOffset 0) week_c = (2, Some 1672012800000)"
  "session_key (fixedOffset 0) week_d = (1, Some 1672617600000)"
  by (simp_all add: session_key_def week_defs date_defs Let_def)

lemma sample_groups:
  "groupSessionsByLanguage (fixedOffset 0) [week_a, week_b, week_c, week_d] =
     Inr [\<lparr>language_id = 1, start_time = 1672012800000, end_time = Some 1672574430000,
            duration_sec = 75, project_name = Some ''first'', file_path = Some []\<rparr>,
          \<lparr>language_id = 2, start_time = 1672012800000, end_time = Some 1672570005000,
            duration_sec = 5, project_name = Some ''Unknown'', file_path = Some []\<rparr>,
          \<lparr>language_id = 1, start_time = 1672617600000, end_time = Some 1673000060000,
            duration_sec = 60, project_name = Some ''later'', file_path = Some ''later.py''\<rparr>]"
  "groupSessionsByLanguage (fixedOffset 0) [week_a, week_b] =
     Inr [\<lparr>language_id = 1, start_time = 1672012800000, end_time = Some 1672574430000,
            duration_sec = 75, project_name = Some ''first'', file_path = Some []\<rparr>]"
proof -
  have k: "ApiService_getWeekStart (fixedOffset 0) (Some 1672574400000) = Some 1672012800000"
    "ApiService_getWeekStart (fixedOffset 0) (Some 1672570000000) = Some 1672012800000"
    "ApiService_getWeekStart (fixedOffset 0) (Some 1673000000000) = Some 1672617600000"
    by (simp_all add: date_defs Let_def)
  show "groupSessionsByLanguage (fixedOffset 0) [week_a, week_b, week_c, week_d] =
     Inr [\<lparr>language_id = 1, start_time = 1672012800000, end_time = Some 1672574430000,
            duration_sec = 75, project_name = Some ''first'', file_path = Some []\<rparr>,
          \<lparr>language_id = 2, start_time = 1672012800000, end_time = Some 1672570005000,
            duration_sec = 5, project_name = Some ''Unknown'', file_path = Some []\<rparr>,
          \<lparr>language_id = 1, start_time = 1672617600000, end_time = Some 1673000060000,
            duration_sec = 60, project_name = Some ''later'', file_path = Some ''later.py''\<rparr>]"
    by (simp add: groupSessionsByLanguage_def groupSession_def week_defs k Let_def
        new_Date_def or_default_def)
  show "groupSessionsByLanguage (fixedOffset 0) [week_a, week_b] =
     Inr [\<lparr>language_id = 1, start_time = 1672012800000, end_time = Some 1672574430000,
            duration_sec = 75, project_name = Some ''first'', file_path = Some []\<rparr>]"
    by (simp add: groupSessionsByLanguage_def groupSession_def week_defs k Let_def
        new_Date_def or_default_def)
qed

lemma sample_members:
  "members (fixedOffset 0) (1, Some 1672012800000) [week_a, week_b, week_c, week_d] = [week_a, week_b]"
  "members (fixedOffset 0) (2, Some 1672012800000) [week_a, week_b, week_c, week_d] = [week_c]"
  "members (fixedOffset 0) (1, Some 1672617600000) [week_a, week_b, week_c, week_d] = [week_d]"
  by (simp_all add: members_def sample_keys)

lemma groupSession_later_member:
  assumes "session_key tz x = (l, Some w)" "map_of m (l, w) \<noteq> None"
  shows "groupSession tz (x\<lparr>project_name := p, file_path := f\<rparr>) m = groupSession tz x m"
  using assms by (auto simp: groupSession_def session_key_def Let_def)

lemma later_member_labels_discarded:
  assumes "members tz (session_key tz x) xs \<noteq> []"
  shows "groupSessions tz (xs @ x\<lparr>project_name := p, file_path := f\<rparr> # ys) [] =
         groupSessions tz (xs @ x # ys) []"
proof (cases "groupSessions tz xs []")
  case (Inl e)
  then show ?thesis by (simp add: groupSessions_append)
next
  case (Inr m)
  then have g: "grouped tz xs m" by (rule grouped_loop)
  from assms obtain s where s: "s \<in> set xs" "session_key tz s = session_key tz x"
    by (auto simp: members_def filter_empty_conv)
  have "snd (session_key tz s) \<noteq> None"
    using grouped_valid [OF g] s(1) by (simp add: list_all_iff)
  then obtain l w where k: "session_key tz x = (l, Some w)"
    using s(2) by (cases "session_key tz x") auto
  have "map_of m (l, w) \<noteq> None"
    using groupedD [OF g, of l w] assms k by (auto split: option.splits)
  with k have "groupSession tz (x\<lparr>project_name := p, file_path := f\<rparr>) m = groupSession tz x m"
    by (rule groupSession_later_member)
  then show ?thesis
    using Inr by (simp add: groupSessions_append)
qed




text \<open>
  Claim C10. Every group record has a first member in input order. When that member has
  a non-empty \<open>project_name\<close>, it is the record's; when it has none or an empty one, the
  record's is \<open>Unknown\<close>. When that member has a \<open>file_path\<close>, it is the record's; when
  it has none, the record's is the empty string. The \<open>project_name\<close> and \<open>file_path\<close>
  of a session that is not the first of its group do not reach the result: with any
  other values for them the result is the same.
\<close>

theorem group_labels_from_first_member:
  "(groupSessionsByLanguage tz sessions = Inr gs \<longrightarrow>
      (\<forall>g \<in> set gs.
         members tz (group_key g) sessions \<noteq> [] \<and>
         (\<forall>n. project_name (hd (members tz (group_key g) sessions)) = Some n \<and> n \<noteq> [] \<longrightarrow>
              project_name g = Some n) \<and>
         (project_name (hd (members tz (group_key g) sessions)) = None \<or>
          project_name (hd (members tz (group_key g) sessions)) = Some [] \<longrightarrow>
              project_name g = Some ''Unknown'') \<and>
         (\<forall>n. file_path (hd (members tz (group_key g) sessions)) = Some n \<longrightarrow>
              file_path g = Some n) \<and>
         (file_path (hd (members tz (group_key g) sessions)) = None \<longrightarrow>
              file_path g = Some []))) \<and>
   (members tz (session_key tz x) xs \<noteq> [] \<longrightarrow>
      groupSessionsByLanguage tz (xs @ x\<lparr>project_name := p, file_path := f\<rparr> # ys) =
      groupSessionsByLanguage tz (xs @ x # ys))"
proof (intro conjI ballI impI allI)
  fix g assume r: "groupSessionsByLanguage tz sessions = Inr gs" and g: "g \<in> set gs"
  from group_summarises [OF r g] obtain l w where k: "group_key g = (l, Some w)"
    and s: "summarises (members tz (group_key g) sessions) (l, w) g"
    by auto
  let ?first = "hd (members tz (group_key g) sessions)"
  have p: "project_name g = Some (or_default (project_name ?first) ''Unknown'')"
    and f: "file_path g = Some (or_default (file_path ?first) [])"
    using s by (simp_all add: summarises_def)
  show "members tz (group_key g) sessions \<noteq> []"
    using s by (simp add: summarises_def)
  show "project_name g = Some n" if "project_name ?first = Some n \<and> n \<noteq> []" for n
    using that p by (simp add: or_default_def)
  show "project_name g = Some ''Unknown''"
    if "project_name ?first = None \<or> project_name ?first = Some []"
    using that p by (auto simp: or_default_def)
  show "file_path g = Some n" if "file_path ?first = Some n" for n
    using that f by (simp add: or_default_def)
  show "file_path g = Some []" if "file_path ?first = None"
    using that f by (simp add: or_default_def)
next
  assume "members tz (session_key tz x) xs \<noteq> []"
  then have "groupSessions tz (xs @ x\<lparr>project_name := p, file_path := f\<rparr> # ys) [] =
         groupSessions tz (xs @ x # ys) []"
    by (rule later_member_labels_discarded)
  then show "groupSessionsByLanguage tz (xs @ x\<lparr>project_name := p, file_path := f\<rparr> # ys) =
      groupSessionsByLanguage tz (xs @ x # ys)"
    by (simp add: groupSessionsByLanguage_def)
qed

theorem group_labels_from_first_member_witness:
  "groupSessionsByLanguage (fixedOffset 0) [week_a, week_b, week_c, week_d] =
     Inr [\<lparr>language_id = 1, start_time = 1672012800000, end_time = Some 1672574430000,
            duration_sec = 75, project_name = Some ''first'', file_path = Some []\<rparr>,
          \<lparr>language_id = 2, start_time = 1672012800000, end_time = Some 1672570005000,
            duration_sec = 5, project_name = Some ''Unknown'', file_path = Some []\<rparr>,
          \<lparr>language_id = 1, start_time = 1672617600000, end_time = Some 1673000060000,
            duration_sec = 60, project_name = Some ''later'', file_path = Some ''later.py''\<rparr>] \<and>
   hd (members (fixedOffset 0) (1, Some 1672012800000) [week_a, week_b, week_c, week_d]) = week_a \<and>
   hd (members (fixedOffset 0) (2, Some 1672012800000) [week_a, week_b, week_c, week_d]) = week_c \<and>
   hd (members (fixedOffset 0) (1, Some 1672617600000) [week_a, week_b, week_c, week_d]) = week_d \<and>
   map project_name [week_a, week_b, week_c, week_d] =
     [Some ''first'', Some ''second'', None, Some ''later''] \<and>
   map file_path [week_a, week_b, week_c, week_d] = [None, None, None, Some ''later.py''] \<and>
   members (fixedOffset 0) (session_key (fixedOffset 0) week_b) [week_a] = [week_a] \<and>
   groupSessionsByLanguage (fixedOffset 0)
     [week_a, week_b\<lparr>project_name := Some ''other'', file_path := Some ''b.py''\<rparr>, week_c, week_d] =
     Inr [\<lparr>language_id = 1, start_time = 1672012800000, end_time = Some 1672574430000,
            duration_sec = 75, project_name = Some ''first'', file_path = Some []\<rparr>,
          \<lparr>language_id = 2, start_time = 1672012800000, end_time = Some 1672570005000,
            duration_sec = 5, project_name = Some ''Unknown'', file_path = Some []\<rparr>,
          \<lparr>language_id = 1, start_time = 1672617600000, end_time = Some 1673000060000,
            duration_sec = 60, project_name = Some ''later'', file_path = Some ''later.py''\<rparr>]"
proof -
  have m: "members (fixedOffset 0) (session_key (fixedOffset 0) week_b) [week_a] = [week_a]"
    by (simp add: members_def sample_keys)
  have l: "map project_name [week_a, week_b, week_c, week_d] =
     [Some ''first'', Some ''second'', None, Some ''later'']"
    "map file_path [week_a, week_b, week_c, week_d] = [None, None, None, Some ''later.py'']"
    by (simp_all add: week_defs)
  note inst = group_labels_from_first_member
      [where tz = "fixedOffset 0" and sessions = "[week_a, week_b, week_c, week_d]" and x = week_b
        and xs = "[week_a]" and p = "Some ''other''" and f = "Some ''b.py''"
        and ys = "[week_c, week_d]"
        and gs = "[\<lparr>language_id = 1, start_time = 1672012800000, end_time = Some 1672574430000,
            duration_sec = 75, project_name = Some ''first'', file_path = Some []\<rparr>,
          \<lparr>language_id = 2, start_time = 1672012800000, end_time = Some 1672570005000,
            duration_sec = 5, project_name = Some ''Unknown'', file_path = Some []\<rparr>,
          \<lparr>language_id = 1, start_time = 1672617600000, end_time = Some 1673000060000,
            duration_sec = 60, project_name = Some ''later'', file_path = Some ''later.py''\<rparr>]"]
  have "groupSessionsByLanguage (fixedOffset 0)
     ([week_a] @ week_b\<lparr>project_name := Some ''other'', file_path := Some ''b.py''\<rparr> #
        [week_c, week_d]) =
     groupSessionsByLanguage (fixedOffset 0) ([week_a] @ week_b # [week_c, week_d])"
    using inst m by simp
  then show ?thesis
    using m l by (simp add: sample_groups sample_members)
qed

end
